theory Spec2Isabelle
  imports Main
begin

section \<open>The platform's arrays\<close>

text \<open>
  The repository is a single TypeScript function, \<open>magicArray\<close>, whose closure holds the live
  array \<open>items\<close>, the array \<open>history\<close> of entries, the number \<open>historyIndex\<close>, the optional
  \<open>validationFn\<close> and the array \<open>listeners\<close>. Its methods call the built-in methods of
  JavaScript arrays; the ones used are given here as functions on lists, following the
  ECMAScript definitions. Numbers that are used as indices and counts are integers.
  Elements are values on which \<open>!==\<close> is inequality: numbers other than \<open>NaN\<close>, strings,
  booleans and \<open>null\<close> by their content, objects by their identity (an object is then the
  reference to it). No element is \<open>undefined\<close>.
\<close>

text \<open>A relative index: negative counts from the end, and the result is clamped to the array.\<close>

definition relativeIndex :: "int \<Rightarrow> nat \<Rightarrow> nat" where
  "relativeIndex r len =
     (if r < 0 then nat (max (int len + r) 0) else nat (min r (int len)))"

text \<open>\<open>xs.splice(start, deleteCount, ...addItems)\<close>: the removed elements and the new contents.\<close>

definition array_splice :: "int \<Rightarrow> int \<Rightarrow> 'a list \<Rightarrow> 'a list \<Rightarrow> 'a list \<times> 'a list" where
  "array_splice start deleteCount addItems xs =
     (let actualStart = relativeIndex start (length xs);
          actualDeleteCount = nat (min (max deleteCount 0) (int (length xs) - int actualStart))
      in (take actualDeleteCount (drop actualStart xs),
          take actualStart xs @ addItems @ drop (actualStart + actualDeleteCount) xs))"

text \<open>\<open>xs.splice(start)\<close> with one argument removes everything from \<open>start\<close> on.\<close>

definition array_splice_from :: "int \<Rightarrow> 'a list \<Rightarrow> 'a list \<times> 'a list" where
  "array_splice_from start xs =
     (let actualStart = relativeIndex start (length xs)
      in (drop actualStart xs, take actualStart xs))"

text \<open>\<open>xs.fill(val, start, end)\<close>; an omitted \<open>start\<close> is 0 and an omitted \<open>end\<close> is the length.\<close>

definition array_fill :: "'a \<Rightarrow> int option \<Rightarrow> int option \<Rightarrow> 'a list \<Rightarrow> 'a list" where
  "array_fill val start endIdx xs =
     (let k = relativeIndex (case start of None \<Rightarrow> 0 | Some r \<Rightarrow> r) (length xs);
          final = (case endIdx of None \<Rightarrow> length xs | Some r \<Rightarrow> relativeIndex r (length xs))
      in if k < final then take k xs @ replicate (final - k) val @ drop final xs else xs)"

text \<open>\<open>xs.copyWithin(target, start, end)\<close>; the copy reads the contents as they were before.\<close>

definition array_copyWithin :: "int \<Rightarrow> int \<Rightarrow> int option \<Rightarrow> 'a list \<Rightarrow> 'a list" where
  "array_copyWithin target start endIdx xs =
     (let to = relativeIndex target (length xs);
          from = relativeIndex start (length xs);
          final = (case endIdx of None \<Rightarrow> length xs | Some r \<Rightarrow> relativeIndex r (length xs));
          count = min (final - from) (length xs - to)
      in if 0 < count then take to xs @ take count (drop from xs) @ drop (to + count) xs
         else xs)"

text \<open>
  \<open>xs.length = n\<close>: a shorter length cuts the array, a longer one leaves empty slots, which
  read as \<open>undefined\<close>. Only \<open>history\<close> is resized, and its slots are options for that reason.
\<close>

definition array_set_length :: "nat \<Rightarrow> 'a option list \<Rightarrow> 'a option list" where
  "array_set_length n xs = take n xs @ replicate (n - length xs) None"

text \<open>\<open>xs[i]\<close> for a number \<open>i\<close>: \<open>undefined\<close> outside the array.\<close>

definition array_get :: "'a list \<Rightarrow> nat \<Rightarrow> 'a option" where
  "array_get xs i = (if i < length xs then Some (xs ! i) else None)"

text \<open>\<open>xs.findIndex(p)\<close>, with \<open>None\<close> for -1.\<close>

fun array_findIndex :: "('a \<Rightarrow> bool) \<Rightarrow> 'a list \<Rightarrow> nat option" where
  "array_findIndex p [] = None"
| "array_findIndex p (x # xs) =
     (if p x then Some 0 else map_option Suc (array_findIndex p xs))"

text \<open>\<open>xs.indexOf(x)\<close> followed by \<open>xs.splice(index, 1)\<close> when the index is not -1.\<close>

definition array_remove_at :: "nat \<Rightarrow> 'a list \<Rightarrow> 'a list" where
  "array_remove_at i xs = take i xs @ drop (Suc i) xs"

section \<open>The data model\<close>

text \<open>
  Arrays of elements are objects with identity: \<open>jump\<close> and \<open>goTo\<close> assign the array of a
  history entry to \<open>items\<close>, after which both names denote one array. They live in a store,
  a list of array contents, and a reference is a position in it; \<open>[...xs]\<close> allocates.
\<close>

type_synonym ref = nat

record 'a Checkpoint =
  label :: "string option"
  cp_items :: "'a list"

record 'a HistoryEntry =
  e_items :: ref
  checkpoints :: "'a Checkpoint list"

text \<open>What a reader of \<open>history\<close> sees: for each slot the contents of the entry's array and
  its checkpoints. This is also what \<open>JSON.stringify(history)\<close> writes down.\<close>

type_synonym 'a entry_view = "('a list \<times> 'a Checkpoint list) option"

datatype 'a payload =
    Items "'a list"
  | Entries "'a entry_view list"
  | Checkpoints "'a Checkpoint list"
  | Found "'a Checkpoint option"

datatype exn = TypeError | SyntaxError

datatype 'r outcome = Threw exn | Returned 'r

text \<open>
  Listeners are opaque callbacks; a listener is known by a number and every call of one
  is appended to \<open>notified\<close> with the event and what the second argument held at the call.
  A listener does not call back into the instance.
\<close>

record 'a state =
  heap :: "'a list list"
  items :: ref
  history :: "'a HistoryEntry option list"
  historyIndex :: int
  validationFn :: "('a \<Rightarrow> bool) option"
  listeners :: "nat list"
  notified :: "(nat \<times> string \<times> 'a payload) list"

definition alloc :: "'a list \<Rightarrow> 'a state \<Rightarrow> ref \<times> 'a state" where
  "alloc xs s = (length (heap s), s\<lparr>heap := heap s @ [xs]\<rparr>)"

definition getItems :: "'a state \<Rightarrow> 'a list" where
  "getItems s = heap s ! items s"

text \<open>An in-place change of the live array.\<close>

definition write_items :: "'a list \<Rightarrow> 'a state \<Rightarrow> 'a state" where
  "write_items xs s = s\<lparr>heap := (heap s)[items s := xs]\<rparr>"

text \<open>\<open>history[i]\<close>: the entry, or \<open>None\<close> where JavaScript reads \<open>undefined\<close>.\<close>

definition history_at :: "'a state \<Rightarrow> int \<Rightarrow> 'a HistoryEntry option" where
  "history_at s i =
     (if 0 \<le> i \<and> i < int (length (history s)) then history s ! nat i else None)"

definition entry_view :: "'a list list \<Rightarrow> 'a HistoryEntry option \<Rightarrow> 'a entry_view" where
  "entry_view h e = map_option (\<lambda>e. (h ! e_items e, checkpoints e)) e"

definition history_view :: "'a state \<Rightarrow> 'a entry_view list" where
  "history_view s = map (entry_view (heap s)) (history s)"

definition notifyListeners :: "string \<Rightarrow> 'a state \<Rightarrow> 'a state" where
  "notifyListeners event s =
     s\<lparr>notified := notified s @ map (\<lambda>listener. (listener, event, Items (getItems s))) (listeners s)\<rparr>"

definition notifySubscribers :: "string \<Rightarrow> 'a payload \<Rightarrow> 'a state \<Rightarrow> 'a state" where
  "notifySubscribers action p s =
     s\<lparr>notified := notified s @ map (\<lambda>listener. (listener, action, p)) (listeners s)\<rparr>"

section \<open>Construction\<close>

definition magicArray :: "'a list \<Rightarrow> ('a \<Rightarrow> bool) option \<Rightarrow> 'a state" where
  "magicArray initialItems vfn =
     \<lparr>heap = [initialItems, initialItems],
      items = 0,
      history = [Some \<lparr>e_items = 1, checkpoints = []\<rparr>],
      historyIndex = 0,
      validationFn = vfn,
      listeners = [],
      notified = []\<rparr>"

section \<open>The array actions, as first defined\<close>

definition admitted :: "'a state \<Rightarrow> 'a list \<Rightarrow> 'a list" where
  "admitted s itemsToPush =
     (case validationFn s of None \<Rightarrow> itemsToPush | Some f \<Rightarrow> filter f itemsToPush)"

definition batchPush :: "'a list \<Rightarrow> 'a state \<Rightarrow> 'a state" where
  "batchPush itemsToPush s =
     notifyListeners ''batchAdd'' (write_items (getItems s @ admitted s itemsToPush) s)"

definition setValidation :: "('a \<Rightarrow> bool) \<Rightarrow> 'a state \<Rightarrow> 'a state" where
  "setValidation fn s = s\<lparr>validationFn := Some fn\<rparr>"

definition serialize :: "'a state \<Rightarrow> 'a list" where
  "serialize s = getItems s"

text \<open>
  \<open>deserialize\<close> receives a text; \<open>JSON.parse\<close> either throws, which is caught and logged,
  or yields the array that becomes \<open>items\<close>. The argument here is the result of parsing.
  \<open>items\<close> is declared \<open>T[]\<close> and every state here holds an array in it: a text that
  parses to something else (the code assigns that to \<open>items\<close>, and later calls on it
  throw) is not among the arguments, and nothing below is said about it.
\<close>

definition deserialize :: "'a list option \<Rightarrow> 'a state \<Rightarrow> 'a state" where
  "deserialize parsed s =
     (case parsed of
        None \<Rightarrow> s
      | Some xs \<Rightarrow>
          (case alloc xs s of (r, s1) \<Rightarrow> notifyListeners ''deserialize'' (s1\<lparr>items := r\<rparr>)))"

definition push_original :: "'a list \<Rightarrow> 'a state \<Rightarrow> nat \<times> 'a state" where
  "push_original itemsToPush s =
     (let s1 = notifyListeners ''add'' (write_items (getItems s @ admitted s itemsToPush) s)
      in (length (getItems s1), s1))"

definition pop_original :: "'a state \<Rightarrow> 'a option \<times> 'a state" where
  "pop_original s =
     (let xs = getItems s;
          poppedItem = (if xs = [] then None else Some (last xs))
      in (poppedItem, notifyListeners ''remove'' (write_items (butlast xs) s)))"

definition shift_original :: "'a state \<Rightarrow> 'a option \<times> 'a state" where
  "shift_original s =
     (let xs = getItems s;
          shiftedItem = (case xs of [] \<Rightarrow> None | x # _ \<Rightarrow> Some x)
      in (shiftedItem, notifyListeners ''shift'' (write_items (drop 1 xs) s)))"

definition unshift_original :: "'a list \<Rightarrow> 'a state \<Rightarrow> nat \<times> 'a state" where
  "unshift_original itemsToUnshift s =
     (let s1 = notifyListeners ''unshift'' (write_items (itemsToUnshift @ getItems s) s)
      in (length (getItems s1), s1))"

definition splice_original ::
  "int \<Rightarrow> int option \<Rightarrow> 'a list \<Rightarrow> 'a state \<Rightarrow> 'a list \<times> 'a state" where
  "splice_original start deleteCount addItems s =
     (let xs = getItems s;
          dc = (case deleteCount of None \<Rightarrow> int (length xs) - start | Some d \<Rightarrow> d)
      in case array_splice start dc addItems xs of
           (result, ys) \<Rightarrow> (result, notifyListeners ''splice'' (write_items ys s)))"

definition reverse_original :: "'a state \<Rightarrow> ref \<times> 'a state" where
  "reverse_original s =
     (let s1 = notifyListeners ''reverse'' (write_items (rev (getItems s)) s)
      in (items s1, s1))"

text \<open>
  \<open>items.sort(compareFn)\<close> is the platform's sort under the caller's comparison; the call
  is given by what it does to the contents of an array.
\<close>

definition sort_original :: "('a list \<Rightarrow> 'a list) \<Rightarrow> 'a state \<Rightarrow> ref \<times> 'a state" where
  "sort_original sorted_by s =
     (let s1 = notifyListeners ''sort'' (write_items (sorted_by (getItems s)) s)
      in (items s1, s1))"

definition fill_original :: "'a \<Rightarrow> int option \<Rightarrow> int option \<Rightarrow> 'a state \<Rightarrow> ref \<times> 'a state" where
  "fill_original val start endIdx s =
     (let s1 = notifyListeners ''fill'' (write_items (array_fill val start endIdx (getItems s)) s)
      in (items s1, s1))"

definition copyWithin_original :: "int \<Rightarrow> int \<Rightarrow> int option \<Rightarrow> 'a state \<Rightarrow> ref \<times> 'a state" where
  "copyWithin_original target start endIdx s =
     (let s1 = notifyListeners ''copyWithin''
                 (write_items (array_copyWithin target start endIdx (getItems s)) s)
      in (items s1, s1))"

section \<open>Recording history\<close>

definition updateHistory :: "'a state \<Rightarrow> 'a state" where
  "updateHistory s =
     (let kept = snd (array_splice_from (historyIndex s + 1) (history s))
      in case alloc (getItems s) s of
           (r, s1) \<Rightarrow>
             s1\<lparr>history := kept @ [Some \<lparr>e_items = r, checkpoints = []\<rparr>],
                historyIndex := int (length kept + 1) - 1\<rparr>)"

text \<open>
  The loop over \<open>mutatingMethods\<close> replaces each listed method by one that calls the
  original and then \<open>updateHistory\<close>. The list names nine methods; \<open>batchPush\<close> and
  \<open>deserialize\<close> are not in it and stay as defined above.
\<close>

definition wrapped :: "('a state \<Rightarrow> 'r \<times> 'a state) \<Rightarrow> 'a state \<Rightarrow> 'r \<times> 'a state" where
  "wrapped originalMethod s =
     (case originalMethod s of (result, s1) \<Rightarrow> (result, updateHistory s1))"

definition push :: "'a list \<Rightarrow> 'a state \<Rightarrow> nat \<times> 'a state" where
  "push itemsToPush = wrapped (push_original itemsToPush)"

definition pop :: "'a state \<Rightarrow> 'a option \<times> 'a state" where
  "pop = wrapped pop_original"

definition shift :: "'a state \<Rightarrow> 'a option \<times> 'a state" where
  "shift = wrapped shift_original"

definition unshift :: "'a list \<Rightarrow> 'a state \<Rightarrow> nat \<times> 'a state" where
  "unshift itemsToUnshift = wrapped (unshift_original itemsToUnshift)"

definition splice :: "int \<Rightarrow> int option \<Rightarrow> 'a list \<Rightarrow> 'a state \<Rightarrow> 'a list \<times> 'a state" where
  "splice start deleteCount addItems = wrapped (splice_original start deleteCount addItems)"

definition reverse :: "'a state \<Rightarrow> ref \<times> 'a state" where
  "reverse = wrapped reverse_original"

definition sort_items :: "('a list \<Rightarrow> 'a list) \<Rightarrow> 'a state \<Rightarrow> ref \<times> 'a state" where
  "sort_items sorted_by = wrapped (sort_original sorted_by)"

definition fill :: "'a \<Rightarrow> int option \<Rightarrow> int option \<Rightarrow> 'a state \<Rightarrow> ref \<times> 'a state" where
  "fill val start endIdx = wrapped (fill_original val start endIdx)"

definition copyWithin :: "int \<Rightarrow> int \<Rightarrow> int option \<Rightarrow> 'a state \<Rightarrow> ref \<times> 'a state" where
  "copyWithin target start endIdx = wrapped (copyWithin_original target start endIdx)"

text \<open>A call of one of the nine recorded methods, and a run of such calls.\<close>

datatype 'a mutation =
    Push "'a list"
  | Pop
  | Shift
  | Unshift "'a list"
  | Splice int "int option" "'a list"
  | Reverse
  | Sort "'a list \<Rightarrow> 'a list"
  | Fill 'a "int option" "int option"
  | CopyWithin int int "int option"

fun mutate :: "'a mutation \<Rightarrow> 'a state \<Rightarrow> 'a state" where
  "mutate (Push xs) s = snd (push xs s)"
| "mutate Pop s = snd (pop s)"
| "mutate Shift s = snd (shift s)"
| "mutate (Unshift xs) s = snd (unshift xs s)"
| "mutate (Splice start deleteCount addItems) s = snd (splice start deleteCount addItems s)"
| "mutate Reverse s = snd (reverse s)"
| "mutate (Sort sorted_by) s = snd (sort_items sorted_by s)"
| "mutate (Fill val start endIdx) s = snd (fill val start endIdx s)"
| "mutate (CopyWithin target start endIdx) s = snd (copyWithin target start endIdx s)"

fun mutations :: "'a mutation list \<Rightarrow> 'a state \<Rightarrow> 'a state" where
  "mutations [] s = s"
| "mutations (m # ms) s = mutations ms (mutate m s)"

section \<open>The history actions\<close>

text \<open>
  Reading \<open>.items\<close> or \<open>.checkpoints\<close> of \<open>history[historyIndex]\<close> throws a TypeError when
  the slot is \<open>undefined\<close>. What was assigned before the throw stays assigned, so every
  action that can throw returns its outcome together with the state it leaves behind.
\<close>

definition previous :: "'a state \<Rightarrow> ref outcome \<times> 'a state" where
  "previous s =
     (if historyIndex s > 0 then
        (let s1 = s\<lparr>historyIndex := historyIndex s - 1\<rparr>
         in case history_at s1 (historyIndex s1) of
              None \<Rightarrow> (Threw TypeError, s1)
            | Some e \<Rightarrow>
                (Returned (e_items e),
                 notifySubscribers ''previous'' (Items (heap s1 ! e_items e)) s1))
      else (Returned (items s), notifySubscribers ''previous'' (Items (getItems s)) s))"

definition next_entry :: "'a state \<Rightarrow> ref outcome \<times> 'a state" where
  "next_entry s =
     (if historyIndex s < int (length (history s)) - 1 then
        (let s1 = s\<lparr>historyIndex := historyIndex s + 1\<rparr>
         in case history_at s1 (historyIndex s1) of
              None \<Rightarrow> (Threw TypeError, s1)
            | Some e \<Rightarrow>
                (Returned (e_items e),
                 notifySubscribers ''next'' (Items (heap s1 ! e_items e)) s1))
      else (Returned (items s), notifySubscribers ''next'' (Items (getItems s)) s))"

definition clean :: "'a state \<Rightarrow> 'a state" where
  "clean s =
     (let s1 = s\<lparr>history := array_set_length 1 (history s), historyIndex := 0\<rparr>
      in notifySubscribers ''clean'' (Entries (history_view s1)) s1)"

definition jump :: "int \<Rightarrow> 'a state \<Rightarrow> ref outcome \<times> 'a state" where
  "jump number s =
     (let s1 = s\<lparr>historyIndex := historyIndex s + number\<rparr>
      in case history_at s1 (historyIndex s1) of
           None \<Rightarrow> (Threw TypeError, s1)
         | Some e \<Rightarrow>
             (let s2 = s1\<lparr>items := e_items e\<rparr>
              in (Returned (items s2), notifySubscribers ''jump'' (Items (getItems s2)) s2)))"

definition goTo :: "int \<Rightarrow> 'a state \<Rightarrow> ref outcome \<times> 'a state" where
  "goTo index s =
     (let s1 = s\<lparr>historyIndex := index\<rparr>
      in case history_at s1 (historyIndex s1) of
           None \<Rightarrow> (Threw TypeError, s1)
         | Some e \<Rightarrow>
             (let s2 = s1\<lparr>items := e_items e\<rparr>
              in (Returned (items s2), notifySubscribers ''goTo'' (Items (getItems s2)) s2)))"

text \<open>Replacing the checkpoints of the current entry, whose slot is known to hold \<open>e\<close>.\<close>

definition set_checkpoints :: "'a HistoryEntry \<Rightarrow> 'a Checkpoint list \<Rightarrow> 'a state \<Rightarrow> 'a state" where
  "set_checkpoints e cps s =
     s\<lparr>history := (history s)[nat (historyIndex s) := Some (e\<lparr>checkpoints := cps\<rparr>)]\<rparr>"

definition saveCheckpoint :: "string option \<Rightarrow> 'a state \<Rightarrow> unit outcome \<times> 'a state" where
  "saveCheckpoint lbl s =
     (case history_at s (historyIndex s) of
        None \<Rightarrow> (Threw TypeError, s)
      | Some e \<Rightarrow>
          (let cps = checkpoints e @ [\<lparr>label = lbl, cp_items = getItems s\<rparr>];
               s1 = set_checkpoints e cps s
           in (Returned (), notifySubscribers ''saveCheckpoint'' (Checkpoints cps) s1)))"

definition removeCheckpoint :: "string \<Rightarrow> 'a state \<Rightarrow> unit outcome \<times> 'a state" where
  "removeCheckpoint lbl s =
     (case history_at s (historyIndex s) of
        None \<Rightarrow> (Threw TypeError, s)
      | Some e \<Rightarrow>
          (case array_findIndex (\<lambda>cp. label cp = Some lbl) (checkpoints e) of
             None \<Rightarrow> (Returned (), s)
           | Some checkpointIndex \<Rightarrow>
               (let cps = array_remove_at checkpointIndex (checkpoints e);
                    s1 = set_checkpoints e cps s
                in (Returned (), notifySubscribers ''removeCheckpoint'' (Checkpoints cps) s1))))"

definition restoreCheckpoint :: "string \<Rightarrow> 'a state \<Rightarrow> unit outcome \<times> 'a state" where
  "restoreCheckpoint lbl s =
     (case history_at s (historyIndex s) of
        None \<Rightarrow> (Threw TypeError, s)
      | Some e \<Rightarrow>
          (let checkpoint = find (\<lambda>cp. label cp = Some lbl) (checkpoints e);
               s1 = (case checkpoint of
                       None \<Rightarrow> s
                     | Some cp \<Rightarrow> (case alloc (cp_items cp) s of (r, s') \<Rightarrow> s'\<lparr>items := r\<rparr>))
           in (Returned (), notifySubscribers ''restoreCheckpoint'' (Found checkpoint) s1)))"

text \<open>
  The text that \<open>import\<close> receives is given by what \<open>JSON.parse\<close> makes of it. Either it
  throws a SyntaxError (\<open>Malformed\<close>); or it yields a value that cannot be spread into
  \<open>history.push\<close>, a number, a boolean, \<open>null\<close> or an object (\<open>NotIterable\<close>); or it yields
  an array, taken here with an entry or \<open>null\<close> in each slot, an entry being given by
  the contents of its array and its checkpoints (\<open>Encoded\<close>). Every parsed entry is a new
  object with a new array. A text that parses to a string, or to an array with a slot
  of another shape, is not of the declared type \<open>HistoryEntry<T>[]\<close> and is not among
  the arguments.
\<close>

datatype 'a serialized = Malformed | NotIterable | Encoded "'a entry_view list"





fun parsed_entries ::
  "'a entry_view list \<Rightarrow> 'a list list \<Rightarrow> 'a HistoryEntry option list \<times> 'a list list" where
  "parsed_entries [] h = ([], h)"
| "parsed_entries (None # vs) h =
     (case parsed_entries vs h of (es, h') \<Rightarrow> (None # es, h'))"
| "parsed_entries (Some (xs, cps) # vs) h =
     (case parsed_entries vs (h @ [xs]) of
        (es, h') \<Rightarrow> (Some \<lparr>e_items = length h, checkpoints = cps\<rparr> # es, h'))"

text \<open>
  \<open>import\<close> parses first, so a SyntaxError leaves everything as it is. Then it sets
  \<open>history.length = 0\<close> and calls \<open>history.push(...importedHistory)\<close>, which throws a
  TypeError for a value that cannot be spread: the entries are gone by then, the
  cursor is as it was, and no listener is called.
\<close>

definition import_history :: "'a serialized \<Rightarrow> 'a state \<Rightarrow> unit outcome \<times> 'a state" where
  "import_history serialized s =
     (case serialized of
        Malformed \<Rightarrow> (Threw SyntaxError, s)
      | NotIterable \<Rightarrow> (Threw TypeError, s\<lparr>history := array_set_length 0 (history s)\<rparr>)
      | Encoded importedHistory \<Rightarrow>
          (case parsed_entries importedHistory (heap s) of
             (es, h) \<Rightarrow>
               (let s1 = s\<lparr>heap := h, history := array_set_length 0 (history s) @ es\<rparr>;
                    s2 = s1\<lparr>historyIndex := int (length (history s1)) - 1\<rparr>
                in (Returned (), notifySubscribers ''import'' (Entries (history_view s2)) s2))))"

definition limit :: "int \<Rightarrow> 'a state \<Rightarrow> 'a state" where
  "limit sz s =
     (if sz < int (length (history s)) then
        (let kept = snd (array_splice 0 (int (length (history s)) - sz) [] (history s));
             s1 = s\<lparr>history := kept, historyIndex := int (length kept) - 1\<rparr>
         in notifySubscribers ''limit'' (Entries (history_view s1)) s1)
      else s)"

definition subscribe :: "nat \<Rightarrow> 'a state \<Rightarrow> 'a state" where
  "subscribe listener s = s\<lparr>listeners := listeners s @ [listener]\<rparr>"

text \<open>\<open>while (times-- && historyIndex > 0) historyIndex--\<close>\<close>

function undo_loop :: "int \<Rightarrow> int \<Rightarrow> int" where
  "undo_loop ntimes idx =
     (if ntimes \<noteq> 0 \<and> idx > 0 then undo_loop (ntimes - 1) (idx - 1) else idx)"
  by pat_completeness auto
termination
  by (relation "measure (\<lambda>(ntimes, idx). nat idx)") auto

text \<open>\<open>while (times-- && historyIndex < history.length - 1) historyIndex++\<close>\<close>

function redo_loop :: "int \<Rightarrow> int \<Rightarrow> int \<Rightarrow> int" where
  "redo_loop len ntimes idx =
     (if ntimes \<noteq> 0 \<and> idx < len - 1 then redo_loop len (ntimes - 1) (idx + 1) else idx)"
  by pat_completeness auto
termination
  by (relation "measure (\<lambda>(len, ntimes, idx). nat (len - 1 - idx))") auto

declare undo_loop.simps [simp del]
declare redo_loop.simps [simp del]

definition undo :: "int option \<Rightarrow> 'a state \<Rightarrow> unit outcome \<times> 'a state" where
  "undo ntimes s =
     (let s1 = s\<lparr>historyIndex :=
                  undo_loop (case ntimes of None \<Rightarrow> 1 | Some t \<Rightarrow> t) (historyIndex s)\<rparr>
      in case history_at s1 (historyIndex s1) of
           None \<Rightarrow> (Threw TypeError, s1)
         | Some e \<Rightarrow>
             (case alloc (heap s1 ! e_items e) s1 of
                (r, s2) \<Rightarrow>
                  (let s3 = s2\<lparr>items := r\<rparr>
                   in (Returned (), notifySubscribers ''undo'' (Items (getItems s3)) s3))))"

definition redo :: "int option \<Rightarrow> 'a state \<Rightarrow> unit outcome \<times> 'a state" where
  "redo ntimes s =
     (let s1 = s\<lparr>historyIndex :=
                  redo_loop (int (length (history s)))
                    (case ntimes of None \<Rightarrow> 1 | Some t \<Rightarrow> t) (historyIndex s)\<rparr>
      in case history_at s1 (historyIndex s1) of
           None \<Rightarrow> (Threw TypeError, s1)
         | Some e \<Rightarrow>
             (case alloc (heap s1 ! e_items e) s1 of
                (r, s2) \<Rightarrow>
                  (let s3 = s2\<lparr>items := r\<rparr>
                   in (Returned (), notifySubscribers ''redo'' (Items (getItems s3)) s3))))"

text \<open>\<open>items.some((item, index) => item !== currentItems[index])\<close>\<close>

definition hasChanges :: "'a state \<Rightarrow> bool outcome" where
  "hasChanges s =
     (case history_at s (historyIndex s) of
        None \<Rightarrow> Threw TypeError
      | Some e \<Rightarrow>
          (let currentItems = heap s ! e_items e
           in Returned (list_ex (\<lambda>(index, item). Some item \<noteq> array_get currentItems index)
                          (enumerate 0 (getItems s)))))"

definition listCheckpoints :: "'a state \<Rightarrow> 'a Checkpoint list outcome" where
  "listCheckpoints s =
     (case history_at s (historyIndex s) of
        None \<Rightarrow> Threw TypeError
      | Some e \<Rightarrow> Returned (checkpoints e))"

text \<open>\<open>addListener\<close> registers the listener and calls it once; the function it returns
  removes the first registration of that listener.\<close>

definition addListener :: "nat \<Rightarrow> 'a state \<Rightarrow> 'a state" where
  "addListener listener s =
     s\<lparr>listeners := listeners s @ [listener],
       notified := notified s @ [(listener, ''initialize'', Items (getItems s))]\<rparr>"

definition removeListener :: "nat \<Rightarrow> 'a state \<Rightarrow> 'a state" where
  "removeListener listener s =
     (case array_findIndex (\<lambda>l. l = listener) (listeners s) of
        None \<Rightarrow> s
      | Some index \<Rightarrow> s\<lparr>listeners := array_remove_at index (listeners s)\<rparr>)"

section \<open>Invariants and a running example\<close>

text \<open>The invariant of the history store: the cursor indexes a slot of \<open>history\<close>.\<close>

definition cursor_in_range :: "'a state \<Rightarrow> bool" where
  "cursor_in_range s \<longleftrightarrow> 0 \<le> historyIndex s \<and> historyIndex s < int (length (history s))"

text \<open>Every reference held by the instance was allocated.\<close>

definition refs_ok :: "'a state \<Rightarrow> bool" where
  "refs_ok s \<longleftrightarrow>
     items s < length (heap s) \<and>
     list_all (\<lambda>e. case e of None \<Rightarrow> True | Some en \<Rightarrow> e_items en < length (heap s))
       (history s)"

text \<open>Every slot of \<open>history\<close> holds an entry.\<close>

definition entries_present :: "'a state \<Rightarrow> bool" where
  "entries_present s \<longleftrightarrow> list_all (\<lambda>e. e \<noteq> None) (history s)"

text \<open>The cursor indexes an entry, in a history without empty slots.\<close>

definition store_ok :: "'a state \<Rightarrow> bool" where
  "store_ok s \<longleftrightarrow>
     cursor_in_range s \<and> entries_present s \<and> history_at s (historyIndex s) \<noteq> None"




text \<open>\<open>magicArray([1, 2, 3])\<close> after \<open>push(4)\<close> and \<open>push(5)\<close>.\<close>

definition example_history :: "int state" where
  "example_history = mutations [Push [4], Push [5]] (magicArray [1, 2, 3] None)"

text \<open>\<open>magicArray([1, 2, 3])\<close> after \<open>push(4)\<close> and \<open>history.previous()\<close>.\<close>

definition example_stepped_back :: "int state" where
  "example_stepped_back = snd (previous (snd (push [4] (magicArray [1, 2, 3] None))))"

text \<open>The same instance as first made, with one listener added.\<close>

definition example_observed :: "int state" where
  "example_observed = addListener 0 (magicArray [1, 2, 3] None)"

text \<open>And after \<open>saveCheckpoint("a")\<close>.\<close>

definition example_checkpointed :: "int state" where
  "example_checkpointed = snd (saveCheckpoint (Some ''a'') example_observed)"

text \<open>
  What holds of an instance made from \<open>initialItems\<close> after any run of recorded mutations:
  the cursor is on the last entry, no entry shares its array with \<open>items\<close>, the first
  entry holds the initial items and the last one the live items.
\<close>

definition recorded :: "'a list \<Rightarrow> 'a state \<Rightarrow> bool" where
  "recorded initialItems s \<longleftrightarrow>
     items s < length (heap s) \<and> history s \<noteq> [] \<and>
     historyIndex s = int (length (history s)) - 1 \<and>
     (\<forall>i < length (history s).
        \<exists>e. history s ! i = Some e \<and> e_items e < length (heap s) \<and> e_items e \<noteq> items s) \<and>
     (\<exists>e. history s ! 0 = Some e \<and> heap s ! e_items e = initialItems) \<and>
     (\<exists>e. last (history s) = Some e \<and> heap s ! e_items e = getItems s)"

text \<open>The states an instance can be in: made by \<open>magicArray\<close>, then any calls.\<close>

inductive reachable :: "'a state \<Rightarrow> bool" where
  created: "reachable (magicArray initialItems vfn)"
| mutated: "reachable s \<Longrightarrow> reachable (mutate m s)"
| batchPushed: "reachable s \<Longrightarrow> reachable (batchPush xs s)"
| deserialized: "reachable s \<Longrightarrow> reachable (deserialize parsed s)"
| validationSet: "reachable s \<Longrightarrow> reachable (setValidation fn s)"
| listenerAdded: "reachable s \<Longrightarrow> reachable (addListener listener s)"
| listenerRemoved: "reachable s \<Longrightarrow> reachable (removeListener listener s)"
| wentPrevious: "reachable s \<Longrightarrow> reachable (snd (previous s))"
| wentNext: "reachable s \<Longrightarrow> reachable (snd (next_entry s))"
| cleaned: "reachable s \<Longrightarrow> reachable (clean s)"
| jumped: "reachable s \<Longrightarrow> reachable (snd (jump number s))"
| wentTo: "reachable s \<Longrightarrow> reachable (snd (goTo index s))"
| checkpointSaved: "reachable s \<Longrightarrow> reachable (snd (saveCheckpoint optlbl s))"
| checkpointRemoved: "reachable s \<Longrightarrow> reachable (snd (removeCheckpoint lbl s))"
| checkpointRestored: "reachable s \<Longrightarrow> reachable (snd (restoreCheckpoint lbl s))"
| imported: "reachable s \<Longrightarrow> reachable (snd (import_history serialized s))"
| limited: "reachable s \<Longrightarrow> reachable (limit sz s)"
| subscribed: "reachable s \<Longrightarrow> reachable (subscribe listener s)"
| undone: "reachable s \<Longrightarrow> reachable (snd (undo ntimes s))"
| redone: "reachable s \<Longrightarrow> reachable (snd (redo ntimes s))"

section \<open>Basic facts\<close>

lemmas array_defs = relativeIndex_def array_splice_def array_splice_from_def array_fill_def
  array_copyWithin_def array_set_length_def array_get_def array_remove_at_def

lemmas state_defs = alloc_def getItems_def write_items_def history_at_def entry_view_def
  history_view_def notifyListeners_def notifySubscribers_def set_checkpoints_def

lemmas original_defs = admitted_def push_original_def pop_original_def shift_original_def
  unshift_original_def splice_original_def reverse_original_def sort_original_def
  fill_original_def copyWithin_original_def

lemmas wrapped_defs = wrapped_def push_def pop_def shift_def unshift_def splice_def
  reverse_def sort_items_def fill_def copyWithin_def

lemmas run_defs = magicArray_def batchPush_def deserialize_def setValidation_def
  updateHistory_def addListener_def removeListener_def

lemma example_history_eval:
  "example_history =
     \<lparr>heap = [[1, 2, 3, 4, 5], [1, 2, 3], [1, 2, 3, 4], [1, 2, 3, 4, 5]],
      items = 0,
      history = [Some \<lparr>e_items = 1, checkpoints = []\<rparr>,
                 Some \<lparr>e_items = 2, checkpoints = []\<rparr>,
                 Some \<lparr>e_items = 3, checkpoints = []\<rparr>],
      historyIndex = 2, validationFn = None, listeners = [], notified = []\<rparr>"
  by (simp add: example_history_def run_defs wrapped_defs original_defs state_defs array_defs)

lemma example_observed_eval:
  "example_observed =
     \<lparr>heap = [[1, 2, 3], [1, 2, 3]], items = 0,
      history = [Some \<lparr>e_items = 1, checkpoints = []\<rparr>],
      historyIndex = 0, validationFn = None, listeners = [0],
      notified = [(0, ''initialize'', Items [1, 2, 3])]\<rparr>"
  by (simp add: example_observed_def addListener_def magicArray_def getItems_def)

lemma example_checkpointed_eval:
  "example_checkpointed =
     \<lparr>heap = [[1, 2, 3], [1, 2, 3]], items = 0,
      history = [Some \<lparr>e_items = 1,
                        checkpoints = [\<lparr>label = Some ''a'', cp_items = [1, 2, 3]\<rparr>]\<rparr>],
      historyIndex = 0, validationFn = None, listeners = [0],
      notified = [(0, ''initialize'', Items [1, 2, 3]),
                  (0, ''saveCheckpoint'',
                   Checkpoints [\<lparr>label = Some ''a'', cp_items = [1, 2, 3]\<rparr>])]\<rparr>"
  by (simp add: example_checkpointed_def example_observed_eval saveCheckpoint_def state_defs
        Let_def)

subsection \<open>The two loops\<close>

lemma undo_loop_bounds: "0 \<le> idx \<Longrightarrow> 0 \<le> undo_loop t idx \<and> undo_loop t idx \<le> idx"
proof (induction t idx rule: undo_loop.induct)
  case (1 n i)
  show ?case
  proof (cases "n \<noteq> 0 \<and> i > 0")
    case True
    then have "undo_loop n i = undo_loop (n - 1) (i - 1)"
      by (simp add: undo_loop.simps [of n i])
    with 1 True show ?thesis by force
  next
    case False
    then have "undo_loop n i = i"
      by (subst undo_loop.simps) auto
    with 1 show ?thesis by simp
  qed
qed

lemma undo_loop_exact: "0 \<le> t \<Longrightarrow> 0 \<le> idx \<Longrightarrow> undo_loop t idx = max 0 (idx - t)"
proof (induction t idx rule: undo_loop.induct)
  case (1 n i)
  show ?case
  proof (cases "n \<noteq> 0 \<and> i > 0")
    case True
    then have "undo_loop n i = undo_loop (n - 1) (i - 1)"
      by (simp add: undo_loop.simps [of n i])
    with 1 True show ?thesis by force
  next
    case False
    then have "undo_loop n i = i"
      by (subst undo_loop.simps) auto
    with 1 False show ?thesis by auto
  qed
qed

lemma redo_loop_bounds:
  "idx \<le> len - 1 \<Longrightarrow> idx \<le> redo_loop len t idx \<and> redo_loop len t idx \<le> len - 1"
proof (induction len t idx rule: redo_loop.induct)
  case (1 len n i)
  show ?case
  proof (cases "n \<noteq> 0 \<and> i < len - 1")
    case True
    then have "redo_loop len n i = redo_loop len (n - 1) (i + 1)"
      by (simp add: redo_loop.simps [of len n i])
    with 1 True show ?thesis by force
  next
    case False
    then have "redo_loop len n i = i"
      by (subst redo_loop.simps) auto
    with 1 show ?thesis by simp
  qed
qed

lemma redo_loop_exact:
  "0 \<le> t \<Longrightarrow> idx \<le> len - 1 \<Longrightarrow> redo_loop len t idx = min (len - 1) (idx + t)"
proof (induction len t idx rule: redo_loop.induct)
  case (1 len n i)
  show ?case
  proof (cases "n \<noteq> 0 \<and> i < len - 1")
    case True
    then have "redo_loop len n i = redo_loop len (n - 1) (i + 1)"
      by (simp add: redo_loop.simps [of len n i])
    with 1 True show ?thesis by force
  next
    case False
    then have "redo_loop len n i = i"
      by (subst redo_loop.simps) auto
    with 1 False show ?thesis by auto
  qed
qed

lemma redo_loop_at_last: "len - 1 \<le> idx \<Longrightarrow> redo_loop len t idx = idx"
  by (simp add: redo_loop.simps [of len t idx])



section \<open>Limiting the history\<close>

lemma limit_noop: "int (length (history s)) \<le> k \<Longrightarrow> limit k s = s"
  by (simp add: limit_def)

lemma splice_front:
  "0 < d \<Longrightarrow> snd (array_splice 0 d [] xs) = drop (nat d) xs"
  by (auto simp: array_splice_def relativeIndex_def Let_def min_def max_def)

lemma limit_truncates:
  assumes "0 < k" "k < int (length (history s))"
  shows "limit k s =
     notifySubscribers ''limit''
       (Entries (drop (length (history s) - nat k) (history_view s)))
       (s\<lparr>history := drop (length (history s) - nat k) (history s), historyIndex := k - 1\<rparr>)"
proof -
  have d: "nat (int (length (history s)) - k) = length (history s) - nat k"
    using assms by linarith
  have l: "int (length (history s) - (length (history s) - nat k)) - 1 = k - 1"
    using assms by linarith
  show ?thesis
    using assms by (simp add: limit_def Let_def splice_front d l history_view_def drop_map)
qed

text \<open>
  C9. On a history of \<open>n\<close> entries and for \<open>0 < k < n\<close>, \<open>limit(k)\<close> keeps exactly the
  last \<open>k\<close> entries in their order, puts the cursor on the last of them and calls every
  listener with \<open>"limit"\<close>; for \<open>k \<ge> n\<close> it changes nothing and calls no listener.
\<close>

theorem limit_keeps_most_recent:
  "(0 < k \<and> k < int (length (history s)) \<longrightarrow>
      history (limit k s) = drop (length (history s) - nat k) (history s)
    \<and> history_view (limit k s) = drop (length (history s) - nat k) (history_view s)
    \<and> length (history (limit k s)) = nat k
    \<and> historyIndex (limit k s) = k - 1
    \<and> heap (limit k s) = heap s \<and> items (limit k s) = items s
    \<and> notified (limit k s) = notified s @
        map (\<lambda>l. (l, ''limit'', Entries (drop (length (history s) - nat k) (history_view s))))
          (listeners s))
  \<and> (int (length (history s)) \<le> k \<longrightarrow> limit k s = s)"
proof (intro conjI impI)
  assume "int (length (history s)) \<le> k"
  then show "limit k s = s" by (rule limit_noop)
next
  assume a: "0 < k \<and> k < int (length (history s))"
  then have e: "limit k s =
     notifySubscribers ''limit''
       (Entries (drop (length (history s) - nat k) (history_view s)))
       (s\<lparr>history := drop (length (history s) - nat k) (history s), historyIndex := k - 1\<rparr>)"
    by (simp add: limit_truncates)
  show "history (limit k s) = drop (length (history s) - nat k) (history s)"
    by (simp add: e notifySubscribers_def)
  show "history_view (limit k s) = drop (length (history s) - nat k) (history_view s)"
    by (simp add: e notifySubscribers_def history_view_def drop_map)
  show "length (history (limit k s)) = nat k"
    using a by (simp add: e notifySubscribers_def) linarith
  show "historyIndex (limit k s) = k - 1"
    by (simp add: e notifySubscribers_def)
  show "heap (limit k s) = heap s"
    by (simp add: e notifySubscribers_def)
  show "items (limit k s) = items s"
    by (simp add: e notifySubscribers_def)
  show "notified (limit k s) = notified s @
        map (\<lambda>l. (l, ''limit'', Entries (drop (length (history s) - nat k) (history_view s))))
          (listeners s)"
    by (simp add: e notifySubscribers_def)
qed


theorem limit_keeps_most_recent_witness:
  "(0 < (2::int) \<and> 2 < int (length (history example_history)))
   \<and> history_view (limit 2 example_history)
       = [Some ([1, 2, 3, 4], []), Some ([1, 2, 3, 4, 5], [])]
   \<and> historyIndex (limit 2 example_history) = 1"
  using limit_keeps_most_recent [of 2 example_history]
  by (simp add: example_history_eval state_defs)

section \<open>Notification and navigation\<close>

lemma notifySubscribers_fields [simp]:
  "heap (notifySubscribers a p s) = heap s"
  "items (notifySubscribers a p s) = items s"
  "history (notifySubscribers a p s) = history s"
  "historyIndex (notifySubscribers a p s) = historyIndex s"
  "validationFn (notifySubscribers a p s) = validationFn s"
  "listeners (notifySubscribers a p s) = listeners s"
  "notified (notifySubscribers a p s) = notified s @ map (\<lambda>l. (l, a, p)) (listeners s)"
  by (simp_all add: notifySubscribers_def)

lemma notifyListeners_fields [simp]:
  "heap (notifyListeners ev s) = heap s"
  "items (notifyListeners ev s) = items s"
  "history (notifyListeners ev s) = history s"
  "historyIndex (notifyListeners ev s) = historyIndex s"
  "validationFn (notifyListeners ev s) = validationFn s"
  "listeners (notifyListeners ev s) = listeners s"
  "notified (notifyListeners ev s) = notified s @ map (\<lambda>l. (l, ev, Items (getItems s))) (listeners s)"
  by (simp_all add: notifyListeners_def)

lemma getItems_notify [simp]:
  "getItems (notifySubscribers a p s) = getItems s"
  "getItems (notifyListeners ev s) = getItems s"
  by (simp_all add: getItems_def)

lemma previous_frame:
  "heap (snd (previous s)) = heap s \<and> items (snd (previous s)) = items s \<and>
   history (snd (previous s)) = history s \<and>
   historyIndex (snd (previous s)) = (if 0 < historyIndex s then historyIndex s - 1 else historyIndex s)"
  by (simp add: previous_def Let_def split: option.split)

lemma next_frame:
  "heap (snd (next_entry s)) = heap s \<and> items (snd (next_entry s)) = items s \<and>
   history (snd (next_entry s)) = history s \<and>
   historyIndex (snd (next_entry s)) =
     (if historyIndex s < int (length (history s)) - 1 then historyIndex s + 1 else historyIndex s)"
  by (simp add: next_entry_def Let_def split: option.split)

lemma previous_result:
  "fst (previous s) =
     (if 0 < historyIndex s then
        (case history_at s (historyIndex s - 1) of None \<Rightarrow> Threw TypeError
         | Some e \<Rightarrow> Returned (e_items e))
      else Returned (items s))"
  by (simp add: previous_def Let_def history_at_def split: option.split)

lemma next_result:
  "fst (next_entry s) =
     (if historyIndex s < int (length (history s)) - 1 then
        (case history_at s (historyIndex s + 1) of None \<Rightarrow> Threw TypeError
         | Some e \<Rightarrow> Returned (e_items e))
      else Returned (items s))"
  by (simp add: next_entry_def Let_def history_at_def split: option.split)

text \<open>
  C10, as amended. \<open>previous()\<close> and \<open>next()\<close> leave the live items as they are, so
  \<open>getItems()\<close> gives the same sequence after the call as before; the entries stay as
  they are too. The cursor moves by one unless it is at the first (last) entry, and the
  call returns the array of the entry at the new cursor when it moved, and the live
  array \<open>items\<close> when it did not.
\<close>

theorem previous_next_keep_live_items:
  "getItems (snd (previous s)) = getItems s \<and> getItems (snd (next_entry s)) = getItems s
   \<and> history_view (snd (previous s)) = history_view s
   \<and> history_view (snd (next_entry s)) = history_view s
   \<and> historyIndex (snd (previous s)) =
       (if 0 < historyIndex s then historyIndex s - 1 else historyIndex s)
   \<and> historyIndex (snd (next_entry s)) =
       (if historyIndex s < int (length (history s)) - 1 then historyIndex s + 1
        else historyIndex s)
   \<and> (\<forall>e. history_at s (historyIndex (snd (previous s))) = Some e \<longrightarrow>
          fst (previous s) = Returned (if 0 < historyIndex s then e_items e else items s))
   \<and> (\<forall>e. history_at s (historyIndex (snd (next_entry s))) = Some e \<longrightarrow>
          fst (next_entry s) =
            Returned (if historyIndex s < int (length (history s)) - 1 then e_items e
                      else items s))"
  by (simp add: previous_frame next_frame previous_result next_result getItems_def
        history_view_def)

theorem previous_next_keep_live_items_witness:
  "history_at example_history (historyIndex (snd (previous example_history)))
     = Some \<lparr>e_items = 2, checkpoints = []\<rparr>
   \<and> fst (previous example_history) = Returned 2
   \<and> heap (snd (previous example_history)) ! 2 = [1, 2, 3, 4]
   \<and> historyIndex (snd (previous example_history)) = 1
   \<and> getItems (snd (previous example_history)) = [1, 2, 3, 4, 5]
   \<and> history_at example_history (historyIndex (snd (next_entry example_history)))
     = Some \<lparr>e_items = 3, checkpoints = []\<rparr>
   \<and> fst (next_entry example_history) = Returned 0
   \<and> historyIndex (snd (next_entry example_history)) = 2
   \<and> getItems (snd (next_entry example_history)) = [1, 2, 3, 4, 5]"
  using previous_next_keep_live_items [of example_history]
  by (simp add: example_history_eval previous_frame next_frame history_at_def getItems_def)

lemma example_stepped_back_eval:
  "example_stepped_back =
     \<lparr>heap = [[1, 2, 3, 4], [1, 2, 3], [1, 2, 3, 4]],
      items = 0,
      history = [Some \<lparr>e_items = 1, checkpoints = []\<rparr>,
                 Some \<lparr>e_items = 2, checkpoints = []\<rparr>],
      historyIndex = 0, validationFn = None, listeners = [], notified = []\<rparr>"
  by (simp add: example_stepped_back_def previous_def run_defs wrapped_defs original_defs
        state_defs array_defs Let_def)

text \<open>
  C10 as stated fails where the cursor does not move. On \<open>magicArray([1, 2, 3])\<close> after
  \<open>push(4)\<close> and \<open>previous()\<close> the cursor is 0; another \<open>previous()\<close> leaves it at 0 and
  returns the live array, which holds \<open>[1, 2, 3, 4]\<close>, while the snapshot of the entry
  at cursor 0 is \<open>[1, 2, 3]\<close>.
\<close>

theorem previous_at_first_entry_returns_live_items:
  "historyIndex example_stepped_back = 0
   \<and> historyIndex (snd (previous example_stepped_back)) = 0
   \<and> fst (previous example_stepped_back) = Returned (items example_stepped_back)
   \<and> fst (previous example_stepped_back) = Returned 0
   \<and> heap (snd (previous example_stepped_back)) ! 0 = [1, 2, 3, 4]
   \<and> history_at (snd (previous example_stepped_back)) 0
       = Some \<lparr>e_items = 1, checkpoints = []\<rparr>
   \<and> heap (snd (previous example_stepped_back)) ! 1 = [1, 2, 3]"
  by (simp add: example_stepped_back_eval previous_def state_defs)

section \<open>The cursor invariant\<close>

lemma length_parsed_entries: "length (fst (parsed_entries vs h)) = length vs"
  by (induction vs h rule: parsed_entries.induct) (simp_all add: split_beta)

lemma updateHistory_cursor: "cursor_in_range (updateHistory s)"
  by (simp add: updateHistory_def cursor_in_range_def alloc_def Let_def)

lemma previous_cursor: "cursor_in_range s \<Longrightarrow> cursor_in_range (snd (previous s))"
  by (simp add: cursor_in_range_def previous_frame)

lemma next_cursor: "cursor_in_range s \<Longrightarrow> cursor_in_range (snd (next_entry s))"
  by (simp add: cursor_in_range_def next_frame)

lemma clean_cursor: "cursor_in_range (clean s)"
  by (simp add: cursor_in_range_def clean_def array_set_length_def Let_def)

lemma jump_cursor:
  "0 \<le> historyIndex s + number \<Longrightarrow> historyIndex s + number < int (length (history s)) \<Longrightarrow>
   cursor_in_range (snd (jump number s))"
  by (simp add: cursor_in_range_def jump_def Let_def split: option.split)

lemma goTo_cursor:
  "0 \<le> index \<Longrightarrow> index < int (length (history s)) \<Longrightarrow> cursor_in_range (snd (goTo index s))"
  by (simp add: cursor_in_range_def goTo_def Let_def split: option.split)

lemma saveCheckpoint_cursor:
  "cursor_in_range s \<Longrightarrow> cursor_in_range (snd (saveCheckpoint lbl s))"
  by (simp add: cursor_in_range_def saveCheckpoint_def set_checkpoints_def Let_def
        split: option.split)

lemma removeCheckpoint_cursor:
  "cursor_in_range s \<Longrightarrow> cursor_in_range (snd (removeCheckpoint lbl s))"
  by (simp add: cursor_in_range_def removeCheckpoint_def set_checkpoints_def Let_def
        split: option.split)

lemma restoreCheckpoint_cursor:
  "cursor_in_range s \<Longrightarrow> cursor_in_range (snd (restoreCheckpoint lbl s))"
  by (simp add: cursor_in_range_def restoreCheckpoint_def alloc_def Let_def
        split: option.split)

lemma array_set_length_zero [simp]: "array_set_length 0 xs = []"
  by (simp add: array_set_length_def)

lemma import_cursor:
  "importedHistory \<noteq> [] \<Longrightarrow>
   cursor_in_range (snd (import_history (Encoded importedHistory) s))"
  using length_parsed_entries [of importedHistory "heap s"]
  by (simp add: cursor_in_range_def import_history_def Let_def split_beta)

lemma import_malformed: "import_history Malformed s = (Threw SyntaxError, s)"
  by (simp add: import_history_def)

lemma limit_cursor:
  assumes "cursor_in_range s" "1 \<le> sz"
  shows "cursor_in_range (limit sz s)"
proof (cases "sz < int (length (history s))")
  case True
  with assms limit_truncates [of sz s] show ?thesis
    by (auto simp: cursor_in_range_def)
next
  case False
  with assms show ?thesis by (simp add: limit_noop)
qed

lemma undo_cursor: "cursor_in_range s \<Longrightarrow> cursor_in_range (snd (undo ntimes s))"
  using undo_loop_bounds [of "historyIndex s" "case ntimes of None \<Rightarrow> 1 | Some t \<Rightarrow> t"]
  by (simp add: cursor_in_range_def undo_def alloc_def Let_def split: option.split)

lemma redo_cursor: "cursor_in_range s \<Longrightarrow> cursor_in_range (snd (redo ntimes s))"
  using redo_loop_bounds [of "historyIndex s" "int (length (history s))"
      "case ntimes of None \<Rightarrow> 1 | Some t \<Rightarrow> t"]
  by (simp add: cursor_in_range_def redo_def alloc_def Let_def split: option.split)

lemma subscribe_cursor: "cursor_in_range s \<Longrightarrow> cursor_in_range (subscribe l s)"
  by (simp add: cursor_in_range_def subscribe_def)

lemma mutate_cursor: "cursor_in_range (mutate m s)"
  by (cases m) (simp_all add: wrapped_defs split_beta updateHistory_cursor)

subsection \<open>Entries in every slot\<close>

lemma entries_present_iff: "entries_present s \<longleftrightarrow> None \<notin> set (history s)"
proof
  assume "entries_present s"
  then have "\<forall>e \<in> set (history s). e \<noteq> None"
    by (simp only: entries_present_def list_all_iff)
  then show "None \<notin> set (history s)" by blast
next
  assume "None \<notin> set (history s)"
  then have "\<forall>e \<in> set (history s). e \<noteq> None" by metis
  then show "entries_present s"
    by (simp only: entries_present_def list_all_iff)
qed

lemma store_ok_iff: "store_ok s \<longleftrightarrow> cursor_in_range s \<and> entries_present s"
proof -
  have "history_at s (historyIndex s) \<noteq> None"
    if c: "cursor_in_range s" and e: "entries_present s"
  proof -
    from c have "nat (historyIndex s) < length (history s)"
      unfolding cursor_in_range_def by linarith
    then have "history s ! nat (historyIndex s) \<in> set (history s)"
      by (rule nth_mem)
    with e have "history s ! nat (historyIndex s) \<noteq> None"
      unfolding entries_present_iff by metis
    with c show ?thesis
      by (simp add: history_at_def cursor_in_range_def)
  qed
  then show ?thesis by (auto simp: store_ok_def)
qed

lemma previous_present: "entries_present s \<Longrightarrow> entries_present (snd (previous s))"
  by (simp add: entries_present_def previous_frame)

lemma next_present: "entries_present s \<Longrightarrow> entries_present (snd (next_entry s))"
  by (simp add: entries_present_def next_frame)

lemma clean_present:
  "cursor_in_range s \<Longrightarrow> entries_present s \<Longrightarrow> entries_present (clean s)"
  by (auto simp: entries_present_iff cursor_in_range_def clean_def array_set_length_def Let_def
        dest: in_set_takeD)

lemma jump_present: "entries_present s \<Longrightarrow> entries_present (snd (jump number s))"
  by (simp add: entries_present_def jump_def Let_def split: option.split)

lemma goTo_present: "entries_present s \<Longrightarrow> entries_present (snd (goTo index s))"
  by (simp add: entries_present_def goTo_def Let_def split: option.split)

lemma set_checkpoints_present:
  "entries_present s \<Longrightarrow> entries_present (set_checkpoints e cps s)"
  by (auto simp: entries_present_iff set_checkpoints_def
        dest!: set_update_subset_insert [THEN subsetD])

lemma notifySubscribers_present [simp]:
  "entries_present (notifySubscribers a p s) = entries_present s"
  by (simp add: entries_present_def)

lemma saveCheckpoint_present:
  "entries_present s \<Longrightarrow> entries_present (snd (saveCheckpoint optlbl s))"
  by (simp add: saveCheckpoint_def Let_def set_checkpoints_present split: option.split)

lemma removeCheckpoint_present:
  "entries_present s \<Longrightarrow> entries_present (snd (removeCheckpoint lbl s))"
  by (simp add: removeCheckpoint_def Let_def set_checkpoints_present split: option.split)

lemma restoreCheckpoint_present:
  "entries_present s \<Longrightarrow> entries_present (snd (restoreCheckpoint lbl s))"
  by (simp add: entries_present_def restoreCheckpoint_def alloc_def Let_def
        split: option.split)

lemma parsed_entries_present:
  "None \<notin> set vs \<Longrightarrow> None \<notin> set (fst (parsed_entries vs h))"
  by (induction vs h rule: parsed_entries.induct) (simp_all add: split_beta)

lemma import_present:
  "list_all (\<lambda>v. v \<noteq> None) importedHistory \<Longrightarrow>
   entries_present (snd (import_history (Encoded importedHistory) s))"
  using parsed_entries_present [of importedHistory "heap s"]
  by (auto simp: entries_present_iff import_history_def Let_def split_beta list_all_iff
        simp del: not_None_eq)

lemma limit_present: "entries_present s \<Longrightarrow> entries_present (limit sz s)"
  by (auto simp: entries_present_iff limit_def Let_def splice_front dest: in_set_dropD)

lemma subscribe_present: "entries_present s \<Longrightarrow> entries_present (subscribe l s)"
  by (simp add: entries_present_def subscribe_def)

lemma undo_present: "entries_present s \<Longrightarrow> entries_present (snd (undo ntimes s))"
  by (simp add: entries_present_def undo_def alloc_def Let_def split: option.split)

lemma redo_present: "entries_present s \<Longrightarrow> entries_present (snd (redo ntimes s))"
  by (simp add: entries_present_def redo_def alloc_def Let_def split: option.split)

lemma updateHistory_present: "entries_present s \<Longrightarrow> entries_present (updateHistory s)"
  by (auto simp: entries_present_iff updateHistory_def alloc_def array_splice_from_def Let_def
        dest: in_set_takeD)

lemma notify_write_present:
  "entries_present (notifyListeners ev (write_items xs s)) = entries_present s"
  by (simp add: entries_present_def notifyListeners_def write_items_def)

lemma mutate_present: "entries_present s \<Longrightarrow> entries_present (mutate m s)"
  by (cases m)
    (simp_all add: wrapped_defs original_defs split_beta Let_def updateHistory_present
      notify_write_present)

text \<open>
  C1, as amended. Take a state in which every slot of the entries holds an entry and
  \<open>0 \<le> cursor < length(entries)\<close>, so that the cursor indexes an entry. Every action of
  the history surface leaves such a state: the entries are not empty, every slot holds
  an entry, and the cursor indexes one. This needs that \<open>jump\<close> and \<open>goTo\<close> aim inside the
  entries, that \<open>limit(size)\<close> is called with \<open>size \<ge> 1\<close>, and that \<open>import\<close> receives a text
  that parses to an array of at least one entry; a text on which \<open>JSON.parse\<close> throws
  leaves the state as it is. The recording step and every recorded mutation leave such
  a state too.
\<close>

theorem history_surface_keeps_cursor_on_entry:
  "store_ok s \<Longrightarrow>
     store_ok (snd (previous s))
   \<and> store_ok (snd (next_entry s))
   \<and> store_ok (clean s)
   \<and> (0 \<le> historyIndex s + number \<and> historyIndex s + number < int (length (history s))
        \<longrightarrow> store_ok (snd (jump number s)))
   \<and> (0 \<le> index \<and> index < int (length (history s))
        \<longrightarrow> store_ok (snd (goTo index s)))
   \<and> store_ok (snd (saveCheckpoint optlbl s))
   \<and> store_ok (snd (removeCheckpoint lbl s))
   \<and> store_ok (snd (restoreCheckpoint lbl s))
   \<and> (importedHistory \<noteq> [] \<and> list_all (\<lambda>v. v \<noteq> None) importedHistory \<longrightarrow>
        store_ok (snd (import_history (Encoded importedHistory) s)))
   \<and> import_history Malformed s = (Threw SyntaxError, s)
   \<and> (1 \<le> sz \<longrightarrow> store_ok (limit sz s))
   \<and> store_ok (subscribe listener s)
   \<and> store_ok (snd (undo ntimes s))
   \<and> store_ok (snd (redo ntimes s))
   \<and> store_ok (updateHistory s)
   \<and> store_ok (mutate m s)"
  by (simp add: store_ok_iff
        previous_cursor next_cursor clean_cursor jump_cursor goTo_cursor
        saveCheckpoint_cursor removeCheckpoint_cursor restoreCheckpoint_cursor import_cursor
        import_malformed limit_cursor subscribe_cursor undo_cursor redo_cursor
        updateHistory_cursor mutate_cursor
        previous_present next_present clean_present jump_present goTo_present
        saveCheckpoint_present removeCheckpoint_present restoreCheckpoint_present
        import_present limit_present subscribe_present undo_present redo_present
        updateHistory_present mutate_present)

lemma store_ok_example: "store_ok example_history"
  by (simp add: example_history_eval store_ok_def cursor_in_range_def entries_present_def
        history_at_def)

theorem history_surface_keeps_cursor_on_entry_witness:
  "store_ok example_history
   \<and> historyIndex example_history = 2 \<and> length (history example_history) = 3
   \<and> store_ok (snd (jump (- 1) example_history))
   \<and> history_at (snd (jump (- 1) example_history))
        (historyIndex (snd (jump (- 1) example_history)))
       = Some \<lparr>e_items = 2, checkpoints = []\<rparr>
   \<and> store_ok (snd (goTo 0 example_history))
   \<and> store_ok (snd (import_history (Encoded [Some ([7], [])]) example_history))
   \<and> store_ok (limit 1 example_history)
   \<and> history (limit 1 example_history) = [Some \<lparr>e_items = 3, checkpoints = []\<rparr>]
   \<and> store_ok (clean example_history)
   \<and> store_ok (snd (undo (Some 5) example_history))"
proof -
  have l: "length (history example_history) = 3" "historyIndex example_history = 2"
    by (simp_all add: example_history_eval)
  have j: "history_at (snd (jump (- 1) example_history))
        (historyIndex (snd (jump (- 1) example_history)))
       = Some \<lparr>e_items = 2, checkpoints = []\<rparr>"
    by (simp add: example_history_eval jump_def history_at_def Let_def)
  have k: "history (limit 1 example_history) = [Some \<lparr>e_items = 3, checkpoints = []\<rparr>]"
    by (simp add: example_history_eval limit_def array_defs Let_def)
  show ?thesis
    using history_surface_keeps_cursor_on_entry [OF store_ok_example, of "- 1" 0 None "''a''"
        "[Some ([7], [])]" 1 0 "Some 5" Pop]
    by (simp add: store_ok_example l j k)
qed

text \<open>
  C1 as stated fails: \<open>limit(0)\<close> meets the precondition \<open>size \<ge> 0\<close> and empties the
  entries, leaving the cursor at -1; importing the text of an empty array does the same.
\<close>

theorem limit_zero_empties_history:
  "cursor_in_range (magicArray [1, 2, 3 :: int] None) \<and> (0::int) \<ge> 0
   \<and> history (limit 0 (magicArray [1, 2, 3 :: int] None)) = []
   \<and> historyIndex (limit 0 (magicArray [1, 2, 3 :: int] None)) = - 1
   \<and> \<not> cursor_in_range (limit 0 (magicArray [1, 2, 3 :: int] None))
   \<and> \<not> cursor_in_range (snd (import_history (Encoded []) (magicArray [1, 2, 3 :: int] None)))"
  by (simp add: cursor_in_range_def magicArray_def limit_def import_history_def
        array_defs state_defs)

text \<open>
  Outside the preconditions: a text that parses to a value that cannot be spread
  empties the entries and leaves the cursor where it was, and \<open>clean()\<close> on an empty
  history leaves one empty slot under the cursor.
\<close>

lemma import_not_iterable:
  "import_history NotIterable s = (Threw TypeError, s\<lparr>history := []\<rparr>)"
  by (simp add: import_history_def)

lemma clean_after_limit_zero:
  "history (clean (limit 0 (magicArray [1, 2, 3 :: int] None))) = [None]
   \<and> \<not> store_ok (clean (limit 0 (magicArray [1, 2, 3 :: int] None)))"
  by (simp add: store_ok_def entries_present_def magicArray_def limit_def clean_def
        array_defs state_defs)

section \<open>Export and import\<close>

lemma entry_view_simps [simp]:
  "entry_view h None = None"
  "entry_view h (Some e) = Some (h ! e_items e, checkpoints e)"
  by (simp_all add: entry_view_def)













section \<open>Checkpoints, unrecorded changes and shared arrays\<close>

lemma array_findIndex_None: "array_findIndex p xs = None \<longleftrightarrow> (\<forall>x \<in> set xs. \<not> p x)"
  by (induction xs) auto

text \<open>
  C8, as amended. When no checkpoint of the current entry has the label,
  \<open>removeCheckpoint(label)\<close> changes nothing and calls no listener, and
  \<open>restoreCheckpoint(label)\<close> changes neither the live items nor the entries nor the
  cursor, and calls every listener once with \<open>"restoreCheckpoint"\<close> and \<open>undefined\<close>.
\<close>

theorem unknown_label_leaves_state:
  "history_at s (historyIndex s) = Some e \<Longrightarrow>
   \<forall>cp \<in> set (checkpoints e). label cp \<noteq> Some lbl \<Longrightarrow>
     removeCheckpoint lbl s = (Returned (), s)
   \<and> restoreCheckpoint lbl s =
       (Returned (), s\<lparr>notified := notified s @
          map (\<lambda>listener. (listener, ''restoreCheckpoint'', Found None)) (listeners s)\<rparr>)"
proof -
  assume e: "history_at s (historyIndex s) = Some e"
    and n: "\<forall>cp \<in> set (checkpoints e). label cp \<noteq> Some lbl"
  from n have i: "array_findIndex (\<lambda>cp. label cp = Some lbl) (checkpoints e) = None"
    by (simp add: array_findIndex_None)
  from n have f: "find (\<lambda>cp. label cp = Some lbl) (checkpoints e) = None"
    by (simp add: find_None_iff)
  show ?thesis
    by (simp add: removeCheckpoint_def restoreCheckpoint_def e i f notifySubscribers_def)
qed

theorem unknown_label_leaves_state_witness:
  "listCheckpoints example_checkpointed
     = Returned [\<lparr>label = Some ''a'', cp_items = [1, 2, 3]\<rparr>]
   \<and> removeCheckpoint ''x'' example_checkpointed = (Returned (), example_checkpointed)
   \<and> getItems (snd (restoreCheckpoint ''x'' example_checkpointed)) = [1, 2, 3]
   \<and> history (snd (restoreCheckpoint ''x'' example_checkpointed))
       = history example_checkpointed
   \<and> historyIndex (snd (restoreCheckpoint ''x'' example_checkpointed)) = 0"
proof -
  let ?e = "\<lparr>e_items = 1, checkpoints = [\<lparr>label = Some ''a'', cp_items = [1, 2, 3 :: int]\<rparr>]\<rparr>"
  have e: "history_at example_checkpointed (historyIndex example_checkpointed) = Some ?e"
    by (simp add: example_checkpointed_eval history_at_def)
  have n: "\<forall>cp \<in> set (checkpoints ?e). label cp \<noteq> Some ''x''"
    by simp
  have l: "listCheckpoints example_checkpointed
     = Returned [\<lparr>label = Some ''a'', cp_items = [1, 2, 3]\<rparr>]"
    by (simp add: listCheckpoints_def e)
  show ?thesis
    using unknown_label_leaves_state [OF e n] l
    by (simp add: example_checkpointed_eval getItems_def)
qed

text \<open>
  C8 as stated fails: the example has one listener and no checkpoint, and
  \<open>restoreCheckpoint("x")\<close> calls the listener.
\<close>

theorem restoreCheckpoint_unknown_label_notifies:
  "listCheckpoints example_observed = Returned []
   \<and> notified (snd (restoreCheckpoint ''x'' example_observed)) =
       notified example_observed @ [(0, ''restoreCheckpoint'', Found None)]
   \<and> notified (snd (restoreCheckpoint ''x'' example_observed)) \<noteq> notified example_observed"
  by (simp add: example_observed_eval listCheckpoints_def restoreCheckpoint_def state_defs)

lemma batchPush_history:
  "history (batchPush xs s) = history s \<and> historyIndex (batchPush xs s) = historyIndex s"
  by (simp add: batchPush_def write_items_def)

text \<open>
  C2. \<open>batchPush\<close> is not among the wrapped methods: on \<open>magicArray([1, 2, 3])\<close>,
  \<open>batchPush([4])\<close> makes the live items \<open>[1, 2, 3, 4]\<close> and leaves one entry and the
  cursor at 0, where \<open>push(4)\<close> leaves two entries and the cursor at 1.
\<close>

theorem batchPush_skips_recording:
  "getItems (batchPush [4] (magicArray [1, 2, 3 :: int] None)) = [1, 2, 3, 4]
   \<and> history_view (batchPush [4] (magicArray [1, 2, 3 :: int] None)) = [Some ([1, 2, 3], [])]
   \<and> historyIndex (batchPush [4] (magicArray [1, 2, 3 :: int] None)) = 0
   \<and> history_view (snd (push [4] (magicArray [1, 2, 3 :: int] None)))
       = [Some ([1, 2, 3], []), Some ([1, 2, 3, 4], [])]
   \<and> historyIndex (snd (push [4] (magicArray [1, 2, 3 :: int] None))) = 1"
  by (simp add: run_defs wrapped_defs original_defs state_defs array_defs)

text \<open>
  C5. After \<open>goTo(0)\<close> the live array is the array of entry 0, and \<open>push(9)\<close> writes into
  it: the snapshot of entry 0 was \<open>[1, 2, 3]\<close> and is \<open>[1, 2, 3, 9]\<close> afterwards.
\<close>

theorem goTo_then_push_rewrites_snapshot:
  "history_view (snd (goTo 0 example_history))
     = [Some ([1, 2, 3], []), Some ([1, 2, 3, 4], []), Some ([1, 2, 3, 4, 5], [])]
   \<and> history_view (snd (push [9] (snd (goTo 0 example_history))))
     = [Some ([1, 2, 3, 9], []), Some ([1, 2, 3, 9], [])]"
  by (simp add: example_history_eval goTo_def run_defs wrapped_defs original_defs
        state_defs array_defs)

text \<open>
  C6. With live items \<open>[1]\<close> and the snapshot \<open>[1, 2]\<close> at the cursor, \<open>hasChanges()\<close>
  returns false.
\<close>

theorem hasChanges_misses_shorter_items:
  "reachable (deserialize (Some [1]) (magicArray [1, 2 :: int] None))
   \<and> getItems (deserialize (Some [1]) (magicArray [1, 2 :: int] None)) = [1]
   \<and> history_view (deserialize (Some [1]) (magicArray [1, 2 :: int] None)) = [Some ([1, 2], [])]
   \<and> historyIndex (deserialize (Some [1]) (magicArray [1, 2 :: int] None)) = 0
   \<and> hasChanges (deserialize (Some [1]) (magicArray [1, 2 :: int] None)) = Returned False"
  by (simp add: reachable.created reachable.deserialized)
    (simp add: hasChanges_def run_defs state_defs array_defs enumerate_eq_zip)

lemma some_differs_iff:
  "list_ex (\<lambda>(index, item). Some item \<noteq> array_get ys index) (enumerate n xs)
     \<longleftrightarrow> take (length xs) (drop n ys) \<noteq> xs"
proof (induction xs arbitrary: n)
  case Nil
  show ?case by simp
next
  case (Cons x xs)
  show ?case
  proof (cases "n < length ys")
    case True
    then have d: "drop n ys = ys ! n # drop (Suc n) ys"
      by (simp add: Cons_nth_drop_Suc)
    show ?thesis
      using True Cons.IH [of "Suc n"] by (auto simp: array_get_def d)
  next
    case False
    then show ?thesis by (simp add: array_get_def)
  qed
qed

lemma hasChanges_prefix:
  "history_at s (historyIndex s) = Some e \<Longrightarrow>
   hasChanges s = Returned (take (length (getItems s)) (heap s ! e_items e) \<noteq> getItems s)"
  using some_differs_iff [of "heap s ! e_items e" 0 "getItems s"]
  by (simp add: hasChanges_def Let_def)

text \<open>
  The same without \<open>deserialize\<close>: on \<open>magicArray([1, 2])\<close> after \<open>pop()\<close> and \<open>previous()\<close> the
  live items are \<open>[1]\<close> and the snapshot at the cursor is \<open>[1, 2]\<close>.
\<close>

lemma hasChanges_after_pop_and_previous:
  "getItems (snd (previous (snd (pop (magicArray [1, 2 :: int] None))))) = [1]
   \<and> history_view (snd (previous (snd (pop (magicArray [1, 2 :: int] None)))))
       = [Some ([1, 2], []), Some ([1], [])]
   \<and> historyIndex (snd (previous (snd (pop (magicArray [1, 2 :: int] None))))) = 0
   \<and> hasChanges (snd (previous (snd (pop (magicArray [1, 2 :: int] None))))) = Returned False"
  by (simp add: hasChanges_def previous_def run_defs wrapped_defs original_defs state_defs
        array_defs Let_def enumerate_eq_zip)

section \<open>Recorded mutations\<close>

lemma write_items_fields [simp]:
  "heap (write_items xs s) = (heap s)[items s := xs]"
  "items (write_items xs s) = items s"
  "history (write_items xs s) = history s"
  "historyIndex (write_items xs s) = historyIndex s"
  "validationFn (write_items xs s) = validationFn s"
  "listeners (write_items xs s) = listeners s"
  "notified (write_items xs s) = notified s"
  by (simp_all add: write_items_def)

lemma updateHistory_fields:
  "heap (updateHistory s) = heap s @ [getItems s]"
  "items (updateHistory s) = items s"
  "history (updateHistory s) =
     take (relativeIndex (historyIndex s + 1) (length (history s))) (history s)
       @ [Some \<lparr>e_items = length (heap s), checkpoints = []\<rparr>]"
  "historyIndex (updateHistory s) = int (length (history (updateHistory s))) - 1"
  "validationFn (updateHistory s) = validationFn s"
  "listeners (updateHistory s) = listeners s"
  "notified (updateHistory s) = notified s"
  by (simp_all add: updateHistory_def alloc_def array_splice_from_def Let_def)

text \<open>What a recorded mutation does to everything but the contents of the live array.\<close>

lemma mutate_frame:
  "length (heap (mutate m s)) = length (heap s) + 1"
  "items (mutate m s) = items s"
  "history (mutate m s) =
     take (relativeIndex (historyIndex s + 1) (length (history s))) (history s)
       @ [Some \<lparr>e_items = length (heap s), checkpoints = []\<rparr>]"
  "historyIndex (mutate m s) = int (length (history (mutate m s))) - 1"
  "listeners (mutate m s) = listeners s"
  by (cases m; simp add: wrapped_defs original_defs split_beta Let_def updateHistory_fields)+

lemma mutate_other_refs:
  "r < length (heap s) \<Longrightarrow> r \<noteq> items s \<Longrightarrow> heap (mutate m s) ! r = heap s ! r"
  by (cases m; simp add: wrapped_defs original_defs split_beta Let_def updateHistory_fields
        nth_append)

lemma mutate_copy:
  "items s < length (heap s) \<Longrightarrow> heap (mutate m s) ! length (heap s) = getItems (mutate m s)"
  by (cases m; simp add: wrapped_defs original_defs split_beta Let_def updateHistory_fields
        nth_append getItems_def)

section \<open>Undo and redo\<close>

lemma recorded_magicArray: "recorded initialItems (magicArray initialItems vfn)"
  by (simp add: recorded_def magicArray_def getItems_def)

lemma recorded_mutate:
  assumes "recorded initialItems s"
  shows "recorded initialItems (mutate m s)"
    and "length (history (mutate m s)) = length (history s) + 1"
proof -
  have i: "items s < length (heap s)" and ne: "history s \<noteq> []"
    and c: "historyIndex s = int (length (history s)) - 1"
    and es: "\<And>i. i < length (history s) \<Longrightarrow>
        \<exists>e. history s ! i = Some e \<and> e_items e < length (heap s) \<and> e_items e \<noteq> items s"
    and first: "\<exists>e. history s ! 0 = Some e \<and> heap s ! e_items e = initialItems"
    using assms by (auto simp: recorded_def)
  have r: "relativeIndex (historyIndex s + 1) (length (history s)) = length (history s)"
    by (simp add: c relativeIndex_def)
  have h: "history (mutate m s) =
      history s @ [Some \<lparr>e_items = length (heap s), checkpoints = []\<rparr>]"
    by (simp add: mutate_frame r)
  show len: "length (history (mutate m s)) = length (history s) + 1"
    by (simp add: h)
  have old: "\<And>j. j < length (history s) \<Longrightarrow>
      \<exists>e. history s ! j = Some e \<and> history (mutate m s) ! j = Some e
          \<and> e_items e < length (heap (mutate m s))
          \<and> e_items e \<noteq> items (mutate m s) \<and> heap (mutate m s) ! e_items e = heap s ! e_items e"
  proof -
    fix j assume j: "j < length (history s)"
    from es [OF j] obtain e where e: "history s ! j = Some e" "e_items e < length (heap s)"
      "e_items e \<noteq> items s" by blast
    show "\<exists>e. history s ! j = Some e \<and> history (mutate m s) ! j = Some e
          \<and> e_items e < length (heap (mutate m s))
          \<and> e_items e \<noteq> items (mutate m s) \<and> heap (mutate m s) ! e_items e = heap s ! e_items e"
      using e j by (simp add: h nth_append mutate_frame(1,2) mutate_other_refs)
  qed
  have all: "\<forall>j < length (history (mutate m s)).
      \<exists>e. history (mutate m s) ! j = Some e \<and> e_items e < length (heap (mutate m s))
          \<and> e_items e \<noteq> items (mutate m s)"
  proof (intro allI impI)
    fix j assume "j < length (history (mutate m s))"
    then consider "j < length (history s)" | "j = length (history s)"
      using len by linarith
    then show "\<exists>e. history (mutate m s) ! j = Some e \<and> e_items e < length (heap (mutate m s))
          \<and> e_items e \<noteq> items (mutate m s)"
    proof cases
      case 1
      with old [OF 1] show ?thesis by blast
    next
      case 2
      with i show ?thesis by (simp add: h mutate_frame(1,2))
    qed
  qed
  have f: "\<exists>e. history (mutate m s) ! 0 = Some e \<and> heap (mutate m s) ! e_items e = initialItems"
  proof -
    have "0 < length (history s)" using ne by simp
    from old [OF this] first show ?thesis by auto
  qed
  have l: "\<exists>e. last (history (mutate m s)) = Some e
      \<and> heap (mutate m s) ! e_items e = getItems (mutate m s)"
    using i by (simp add: h mutate_copy)
  show "recorded initialItems (mutate m s)"
    unfolding recorded_def
    using i all f l by (simp add: mutate_frame(1,2,4) h)
qed

lemma recorded_mutations:
  "recorded initialItems s \<Longrightarrow>
   recorded initialItems (mutations ms s) \<and>
   length (history (mutations ms s)) = length (history s) + length ms"
proof (induction ms arbitrary: s)
  case Nil
  then show ?case by simp
next
  case (Cons m ms)
  from Cons.prems have "recorded initialItems (mutate m s)"
    and "length (history (mutate m s)) = length (history s) + 1"
    by (simp_all add: recorded_mutate)
  with Cons.IH [of "mutate m s"] show ?case by simp
qed

lemma history_at_update [simp]:
  "history_at (s\<lparr>historyIndex := x\<rparr>) i = history_at s i"
  "history_at (s\<lparr>items := r\<rparr>) i = history_at s i"
  "history_at (s\<lparr>heap := h\<rparr>) i = history_at s i"
  "history_at (s\<lparr>notified := n\<rparr>) i = history_at s i"
  by (simp_all add: history_at_def)

lemma undo_state:
  "history_at s (undo_loop (case ntimes of None \<Rightarrow> 1 | Some t \<Rightarrow> t) (historyIndex s)) = Some e \<Longrightarrow>
   undo ntimes s =
     (Returned (),
      notifySubscribers ''undo'' (Items (heap s ! e_items e))
        (s\<lparr>heap := heap s @ [heap s ! e_items e], items := length (heap s),
           historyIndex := undo_loop (case ntimes of None \<Rightarrow> 1 | Some t \<Rightarrow> t) (historyIndex s)\<rparr>))"
  by (simp add: undo_def Let_def alloc_def getItems_def notifySubscribers_def)

lemma redo_state:
  "history_at s (redo_loop (int (length (history s))) (case ntimes of None \<Rightarrow> 1 | Some t \<Rightarrow> t)
       (historyIndex s)) = Some e \<Longrightarrow>
   redo ntimes s =
     (Returned (),
      notifySubscribers ''redo'' (Items (heap s ! e_items e))
        (s\<lparr>heap := heap s @ [heap s ! e_items e], items := length (heap s),
           historyIndex := redo_loop (int (length (history s)))
             (case ntimes of None \<Rightarrow> 1 | Some t \<Rightarrow> t) (historyIndex s)\<rparr>))"
  by (simp add: redo_def Let_def alloc_def getItems_def notifySubscribers_def)

lemma undo_all_recorded:
  assumes "recorded initialItems s" "length (history s) = n + 1"
  shows "fst (undo (Some (int n)) s) = Returned ()"
    and "getItems (snd (undo (Some (int n)) s)) = initialItems"
    and "history (snd (undo (Some (int n)) s)) = history s"
    and "historyIndex (snd (undo (Some (int n)) s)) = 0"
    and "\<exists>ext. heap (snd (undo (Some (int n)) s)) = heap s @ ext"
proof -
  from assms obtain e where e: "history s ! 0 = Some e" "heap s ! e_items e = initialItems"
    by (auto simp: recorded_def)
  have c: "historyIndex s = int n" using assms by (simp add: recorded_def)
  have u: "undo_loop (int n) (historyIndex s) = 0"
    by (simp add: c undo_loop_exact)
  have a: "history_at s (undo_loop (case Some (int n) of None \<Rightarrow> 1 | Some t \<Rightarrow> t)
      (historyIndex s)) = Some e"
    using e assms(2) by (simp add: u history_at_def)
  note st = undo_state [OF a]
  show "fst (undo (Some (int n)) s) = Returned ()" by (simp add: st)
  show "getItems (snd (undo (Some (int n)) s)) = initialItems"
    by (simp add: st getItems_def e)
  show "history (snd (undo (Some (int n)) s)) = history s" by (simp add: st)
  show "historyIndex (snd (undo (Some (int n)) s)) = 0" by (simp add: st u)
  show "\<exists>ext. heap (snd (undo (Some (int n)) s)) = heap s @ ext" by (simp add: st)
qed

lemma redo_all_recorded:
  assumes "recorded initialItems s" "length (history s) = n + 1"
  shows "fst (redo (Some (int n)) (snd (undo (Some (int n)) s))) = Returned ()"
    and "getItems (snd (redo (Some (int n)) (snd (undo (Some (int n)) s)))) = getItems s"
proof -
  let ?u = "snd (undo (Some (int n)) s)"
  from assms obtain e where e: "last (history s) = Some e" "heap s ! e_items e = getItems s"
    by (auto simp: recorded_def)
  have ne: "history s \<noteq> []" using assms by (simp add: recorded_def)
  have v: "e_items e < length (heap s)"
  proof -
    have "length (history s) - 1 < length (history s)" using ne by simp
    with assms(1) have "\<exists>e'. history s ! (length (history s) - 1) = Some e'
        \<and> e_items e' < length (heap s)"
      unfolding recorded_def by blast
    with e(1) ne show ?thesis by (simp add: last_conv_nth)
  qed
  obtain ext where x: "heap ?u = heap s @ ext"
    using undo_all_recorded(5) [OF assms] by blast
  have h: "history ?u = history s" and c: "historyIndex ?u = 0"
    using undo_all_recorded [OF assms] by simp_all
  have r: "redo_loop (int (length (history ?u))) (int n) (historyIndex ?u) = int n"
    using assms(2) by (simp add: h c redo_loop_exact)
  have a: "history_at ?u (redo_loop (int (length (history ?u)))
      (case Some (int n) of None \<Rightarrow> 1 | Some t \<Rightarrow> t) (historyIndex ?u)) = Some e"
    unfolding option.case r using e(1) ne assms(2) by (simp add: history_at_def h last_conv_nth)
  note st = redo_state [OF a]
  show "fst (redo (Some (int n)) ?u) = Returned ()" by (simp add: st)
  show "getItems (snd (redo (Some (int n)) ?u)) = getItems s"
    using v by (simp add: st getItems_def x nth_append e(2) [unfolded getItems_def])
qed

text \<open>
  C3. On a new instance with initial items \<open>I\<close>, after any \<open>n\<close> recorded mutations,
  \<open>undo(n)\<close> returns and makes the live items equal to \<open>I\<close>, and \<open>redo(n)\<close> after it returns
  and makes them equal to the live items after the last mutation.
\<close>

theorem undo_redo_inverse:
  "fst (undo (Some (int (length ms))) (mutations ms (magicArray initialItems vfn))) = Returned ()
   \<and> getItems (snd (undo (Some (int (length ms))) (mutations ms (magicArray initialItems vfn))))
       = initialItems
   \<and> fst (redo (Some (int (length ms)))
        (snd (undo (Some (int (length ms))) (mutations ms (magicArray initialItems vfn)))))
       = Returned ()
   \<and> getItems (snd (redo (Some (int (length ms)))
        (snd (undo (Some (int (length ms))) (mutations ms (magicArray initialItems vfn))))))
       = getItems (mutations ms (magicArray initialItems vfn))"
proof -
  let ?s = "mutations ms (magicArray initialItems vfn)"
  have r: "recorded initialItems ?s" and l: "length (history ?s) = length ms + 1"
    using recorded_mutations [OF recorded_magicArray, where ms = ms]
    by (simp_all add: magicArray_def)
  show ?thesis
    using undo_all_recorded [OF r l] redo_all_recorded [OF r l] by simp
qed

section \<open>A mutation after undo\<close>

lemma undo_frame:
  "history (snd (undo ntimes s)) = history s"
  "historyIndex (snd (undo ntimes s)) =
     undo_loop (case ntimes of None \<Rightarrow> 1 | Some t \<Rightarrow> t) (historyIndex s)"
  "length (heap s) \<le> length (heap (snd (undo ntimes s)))"
  "items s < length (heap s) \<Longrightarrow> items (snd (undo ntimes s)) < length (heap (snd (undo ntimes s)))"
  by (simp_all add: undo_def Let_def alloc_def split: option.split)

lemma mutate_then_redo:
  assumes "items s < length (heap s)"
  shows "fst (redo ntimes (mutate m s)) = Returned ()"
    and "getItems (snd (redo ntimes (mutate m s))) = getItems (mutate m s)"
    and "history (snd (redo ntimes (mutate m s))) = history (mutate m s)"
    and "historyIndex (snd (redo ntimes (mutate m s))) = historyIndex (mutate m s)"
proof -
  let ?s = "mutate m s"
  let ?e = "\<lparr>e_items = length (heap s), checkpoints = [] :: 'a Checkpoint list\<rparr>"
  have c: "historyIndex ?s = int (length (history ?s)) - 1"
    by (rule mutate_frame(4))
  have l: "last (history ?s) = Some ?e" and ne: "history ?s \<noteq> []"
    by (simp_all add: mutate_frame(3))
  have r: "redo_loop (int (length (history ?s))) (case ntimes of None \<Rightarrow> 1 | Some t \<Rightarrow> t)
      (historyIndex ?s) = historyIndex ?s"
    by (simp add: redo_loop_at_last c)
  have a: "history_at ?s (redo_loop (int (length (history ?s)))
      (case ntimes of None \<Rightarrow> 1 | Some t \<Rightarrow> t) (historyIndex ?s)) = Some ?e"
  proof -
    have n: "nat (int (length (history ?s)) - 1) = length (history ?s) - 1" by linarith
    show ?thesis
      unfolding r using l ne by (simp add: history_at_def c last_conv_nth n)
  qed
  note st = redo_state [OF a]
  show "fst (redo ntimes ?s) = Returned ()" by (simp add: st)
  show "getItems (snd (redo ntimes ?s)) = getItems ?s"
    using mutate_copy [OF assms, of m] by (simp add: st getItems_def)
  show "history (snd (redo ntimes ?s)) = history ?s" by (simp add: st)
  show "historyIndex (snd (redo ntimes ?s)) = historyIndex ?s" by (simp add: st r)
qed

lemma mutate_history_in_range:
  "- 1 \<le> historyIndex s \<Longrightarrow> historyIndex s < int (length (history s)) \<Longrightarrow>
   history (mutate m s) = take (nat (historyIndex s + 1)) (history s)
     @ [Some \<lparr>e_items = length (heap s), checkpoints = []\<rparr>]"
  by (simp add: mutate_frame(3) relativeIndex_def min_def)

text \<open>
  C7. From a state whose cursor is in range, \<open>undo(k)\<close> moves the cursor down (to
  \<open>max(0, cursor - k)\<close> for \<open>k \<ge> 0\<close>); a recorded mutation after it keeps the entries up
  to that cursor, drops the ones after it and appends one entry, on which the cursor
  then stands; \<open>redo\<close>, with any count, then returns and leaves the live items, the
  entries and the cursor as they are.
\<close>

theorem mutation_after_undo_discards_future:
  "refs_ok s \<Longrightarrow> cursor_in_range s \<Longrightarrow>
     0 \<le> historyIndex (snd (undo (Some k) s))
   \<and> historyIndex (snd (undo (Some k) s)) \<le> historyIndex s
   \<and> (0 \<le> k \<longrightarrow> historyIndex (snd (undo (Some k) s)) = max 0 (historyIndex s - k))
   \<and> history (mutate m (snd (undo (Some k) s))) =
       take (nat (historyIndex (snd (undo (Some k) s))) + 1) (history s)
         @ [Some \<lparr>e_items = length (heap (snd (undo (Some k) s))), checkpoints = []\<rparr>]
   \<and> historyIndex (mutate m (snd (undo (Some k) s)))
       = int (length (history (mutate m (snd (undo (Some k) s))))) - 1
   \<and> fst (redo ntimes (mutate m (snd (undo (Some k) s)))) = Returned ()
   \<and> getItems (snd (redo ntimes (mutate m (snd (undo (Some k) s)))))
       = getItems (mutate m (snd (undo (Some k) s)))
   \<and> history (snd (redo ntimes (mutate m (snd (undo (Some k) s)))))
       = history (mutate m (snd (undo (Some k) s)))
   \<and> historyIndex (snd (redo ntimes (mutate m (snd (undo (Some k) s)))))
       = historyIndex (mutate m (snd (undo (Some k) s)))"
proof -
  assume ok: "refs_ok s" and cr: "cursor_in_range s"
  let ?u = "snd (undo (Some k) s)"
  have i: "items ?u < length (heap ?u)"
    using ok by (simp add: undo_frame(4) refs_ok_def)
  have c: "historyIndex ?u = undo_loop k (historyIndex s)"
    by (simp add: undo_frame(2))
  have b: "0 \<le> historyIndex ?u" "historyIndex ?u \<le> historyIndex s"
    using cr undo_loop_bounds [of "historyIndex s" k] by (simp_all add: c cursor_in_range_def)
  have x: "0 \<le> k \<longrightarrow> historyIndex ?u = max 0 (historyIndex s - k)"
    using cr by (simp add: c undo_loop_exact cursor_in_range_def)
  have h: "history (mutate m ?u) = take (nat (historyIndex ?u) + 1) (history s)
         @ [Some \<lparr>e_items = length (heap ?u), checkpoints = []\<rparr>]"
  proof -
    have "historyIndex ?u < int (length (history ?u))"
      using b cr by (simp add: undo_frame(1) cursor_in_range_def)
    with b(1) have "history (mutate m ?u) = take (nat (historyIndex ?u + 1)) (history ?u)
         @ [Some \<lparr>e_items = length (heap ?u), checkpoints = []\<rparr>]"
      by (intro mutate_history_in_range) simp_all
    moreover have "nat (historyIndex ?u + 1) = nat (historyIndex ?u) + 1"
      using b(1) by linarith
    ultimately show ?thesis by (simp add: undo_frame(1))
  qed
  show ?thesis
    using b x h mutate_frame(4) [of m ?u] mutate_then_redo [OF i, of ntimes m]
    by simp
qed

lemma refs_ok_example: "refs_ok example_history"
  by (simp add: example_history_eval refs_ok_def)

lemma cursor_example: "cursor_in_range example_history"
  by (simp add: example_history_eval cursor_in_range_def)

theorem mutation_after_undo_discards_future_witness:
  "refs_ok example_history \<and> cursor_in_range example_history \<and> (0::int) \<le> 2
   \<and> historyIndex (snd (undo (Some 2) example_history)) = 0
   \<and> length (history (mutate (Push [9]) (snd (undo (Some 2) example_history)))) = 2
   \<and> getItems (mutate (Push [9]) (snd (undo (Some 2) example_history))) = [1, 2, 3, 9]
   \<and> getItems (snd (redo None (mutate (Push [9]) (snd (undo (Some 2) example_history)))))
       = [1, 2, 3, 9]"
proof -
  let ?u = "snd (undo (Some 2) example_history)"
  let ?m = "mutate (Push [9]) ?u"
  note T = mutation_after_undo_discards_future [OF refs_ok_example cursor_example,
      of 2 "Push [9]" None]
  have hi: "historyIndex example_history = 2" and hl: "length (history example_history) = 3"
    by (simp_all add: example_history_eval)
  have c: "historyIndex ?u = 0"
    using T [THEN conjunct2, THEN conjunct2, THEN conjunct1] by (simp add: hi)
  have l: "length (history ?m) = 2"
    using T [THEN conjunct2, THEN conjunct2, THEN conjunct2, THEN conjunct1]
    by (simp add: c hl)
  have u: "?u =
     \<lparr>heap = [[1, 2, 3, 4, 5], [1, 2, 3], [1, 2, 3, 4], [1, 2, 3, 4, 5], [1, 2, 3]],
      items = 4,
      history = [Some \<lparr>e_items = 1, checkpoints = []\<rparr>,
                 Some \<lparr>e_items = 2, checkpoints = []\<rparr>,
                 Some \<lparr>e_items = 3, checkpoints = []\<rparr>],
      historyIndex = 0, validationFn = None, listeners = [], notified = []\<rparr>"
    by (simp add: example_history_eval undo_def undo_loop.simps state_defs)
  have g: "getItems ?m = [1, 2, 3, 9]"
    by (simp add: u run_defs wrapped_defs original_defs state_defs array_defs)
  have r: "getItems (snd (redo None ?m)) = [1, 2, 3, 9]"
    using T [THEN conjunct2, THEN conjunct2, THEN conjunct2, THEN conjunct2, THEN conjunct2,
        THEN conjunct2, THEN conjunct1]
    by (simp only: g)
  show ?thesis
    using refs_ok_example cursor_example c l g r by simp
qed

section \<open>Reachable states\<close>

lemma refs_ok_iff:
  "refs_ok s \<longleftrightarrow>
     items s < length (heap s) \<and> (\<forall>e. Some e \<in> set (history s) \<longrightarrow> e_items e < length (heap s))"
  by (auto simp: refs_ok_def list_all_iff split: option.splits)

lemma history_at_mem: "history_at s i = Some e \<Longrightarrow> Some e \<in> set (history s)"
proof -
  assume "history_at s i = Some e"
  then have "0 \<le> i" "i < int (length (history s))" "history s ! nat i = Some e"
    by (auto simp: history_at_def split: if_splits)
  moreover from this have "nat i < length (history s)" by linarith
  ultimately show ?thesis using nth_mem by force
qed

lemma refs_ok_magicArray: "refs_ok (magicArray initialItems vfn)"
  by (simp add: refs_ok_def magicArray_def)

lemma refs_ok_mutate: "refs_ok s \<Longrightarrow> refs_ok (mutate m s)"
  by (auto simp: refs_ok_iff mutate_frame dest!: in_set_takeD)

lemma refs_ok_batchPush: "refs_ok s \<Longrightarrow> refs_ok (batchPush xs s)"
  by (simp add: refs_ok_iff batchPush_def)

lemma refs_ok_deserialize: "refs_ok s \<Longrightarrow> refs_ok (deserialize parsed s)"
  by (auto simp: refs_ok_iff deserialize_def alloc_def split: option.split)

lemma refs_ok_setValidation: "refs_ok s \<Longrightarrow> refs_ok (setValidation fn s)"
  by (simp add: refs_ok_iff setValidation_def)

lemma refs_ok_addListener: "refs_ok s \<Longrightarrow> refs_ok (addListener listener s)"
  by (simp add: refs_ok_iff addListener_def)

lemma refs_ok_removeListener: "refs_ok s \<Longrightarrow> refs_ok (removeListener listener s)"
  by (simp add: refs_ok_iff removeListener_def split: option.split)

lemma refs_ok_previous: "refs_ok s \<Longrightarrow> refs_ok (snd (previous s))"
  by (simp add: refs_ok_iff previous_frame)

lemma refs_ok_next: "refs_ok s \<Longrightarrow> refs_ok (snd (next_entry s))"
  by (simp add: refs_ok_iff next_frame)

lemma refs_ok_clean: "refs_ok s \<Longrightarrow> refs_ok (clean s)"
  by (auto simp: refs_ok_iff clean_def array_set_length_def Let_def dest!: in_set_takeD)

lemma refs_ok_jump: "refs_ok s \<Longrightarrow> refs_ok (snd (jump number s))"
  by (auto simp: refs_ok_iff jump_def Let_def split: option.split dest: history_at_mem)

lemma refs_ok_goTo: "refs_ok s \<Longrightarrow> refs_ok (snd (goTo index s))"
  by (auto simp: refs_ok_iff goTo_def Let_def split: option.split dest: history_at_mem)

lemma refs_ok_set_checkpoints:
  "refs_ok s \<Longrightarrow> history_at s (historyIndex s) = Some e \<Longrightarrow> refs_ok (set_checkpoints e cps s)"
  by (auto simp: refs_ok_iff set_checkpoints_def dest!: set_update_subset_insert [THEN subsetD]
        dest: history_at_mem)

lemma refs_ok_notifySubscribers [simp]: "refs_ok (notifySubscribers a p s) = refs_ok s"
  by (simp add: refs_ok_iff)

lemma refs_ok_saveCheckpoint: "refs_ok s \<Longrightarrow> refs_ok (snd (saveCheckpoint optlbl s))"
  by (simp add: saveCheckpoint_def Let_def refs_ok_set_checkpoints split: option.split)

lemma refs_ok_removeCheckpoint: "refs_ok s \<Longrightarrow> refs_ok (snd (removeCheckpoint lbl s))"
  by (simp add: removeCheckpoint_def Let_def refs_ok_set_checkpoints split: option.split)

lemma refs_ok_restoreCheckpoint: "refs_ok s \<Longrightarrow> refs_ok (snd (restoreCheckpoint lbl s))"
  by (auto simp: restoreCheckpoint_def Let_def alloc_def refs_ok_iff split: option.split)

lemma parsed_entries_refs:
  "length h \<le> length (snd (parsed_entries vs h)) \<and>
   (\<forall>e. Some e \<in> set (fst (parsed_entries vs h)) \<longrightarrow>
      e_items e < length (snd (parsed_entries vs h)))"
  by (induction vs h rule: parsed_entries.induct) (auto simp: split_beta)

lemma refs_ok_import: "refs_ok s \<Longrightarrow> refs_ok (snd (import_history serialized s))"
proof (cases serialized)
  case Malformed
  assume "refs_ok s"
  then show ?thesis by (simp add: Malformed import_history_def)
next
  case NotIterable
  assume "refs_ok s"
  then show ?thesis by (simp add: NotIterable import_history_def refs_ok_iff)
next
  case (Encoded vs)
  assume "refs_ok s"
  with parsed_entries_refs [of "heap s" vs] show ?thesis
    by (auto simp: Encoded import_history_def Let_def split_beta refs_ok_iff)
qed

lemma refs_ok_limit: "refs_ok s \<Longrightarrow> refs_ok (limit sz s)"
  by (auto simp: limit_def Let_def refs_ok_iff splice_front dest!: in_set_dropD)

lemma refs_ok_subscribe: "refs_ok s \<Longrightarrow> refs_ok (subscribe listener s)"
  by (simp add: refs_ok_iff subscribe_def)

lemma refs_ok_undo: "refs_ok s \<Longrightarrow> refs_ok (snd (undo ntimes s))"
  by (auto simp: undo_def Let_def alloc_def refs_ok_iff split: option.split)

lemma refs_ok_redo: "refs_ok s \<Longrightarrow> refs_ok (snd (redo ntimes s))"
  by (auto simp: redo_def Let_def alloc_def refs_ok_iff split: option.split)

lemma reachable_refs_ok: "reachable s \<Longrightarrow> refs_ok s"
  by (induction rule: reachable.induct)
    (simp_all add: refs_ok_magicArray refs_ok_mutate refs_ok_batchPush refs_ok_deserialize
      refs_ok_setValidation refs_ok_addListener refs_ok_removeListener refs_ok_previous
      refs_ok_next refs_ok_clean refs_ok_jump refs_ok_goTo refs_ok_saveCheckpoint
      refs_ok_removeCheckpoint refs_ok_restoreCheckpoint refs_ok_import refs_ok_limit
      refs_ok_subscribe refs_ok_undo refs_ok_redo)

end
